theory Spec2Isabelle
  imports Main
begin

section \<open>JavaScript values\<close>

text \<open>
  The module \<^verbatim>\<open>lib/aws-common.js\<close> is dynamically typed: a name parameter can receive a
  string, a number, nothing at all, or (when a function is handed to \<^verbatim>\<open>async.map\<close> with
  the wrong arity) a callback function.  Values are therefore modelled by one datatype.
  Numbers are integers here; strings are lists of 8-bit characters; an object is the list
  of its own enumerable properties in enumeration order; a function carries its source
  text, which is what string coercion yields.
\<close>

datatype jsval =
    JUndefined
  | JNull
  | JBool bool
  | JNum int
  | JStr string
  | JArr "jsval list"
  | JObj "(string \<times> jsval) list"
  | JFun string

text \<open>Truthiness, as tested by \<^verbatim>\<open>!x\<close>, \<^verbatim>\<open>if (x)\<close> and \<^verbatim>\<open>x || y\<close>.\<close>

fun truthy :: "jsval \<Rightarrow> bool" where
  "truthy JUndefined = False"
| "truthy JNull = False"
| "truthy (JBool b) = b"
| "truthy (JNum n) = (n \<noteq> 0)"
| "truthy (JStr s) = (s \<noteq> [])"
| "truthy (JArr xs) = True"
| "truthy (JObj kvs) = True"
| "truthy (JFun src) = True"

definition digit_char :: "nat \<Rightarrow> char" where
  "digit_char d =
     (if d = 0 then CHR ''0'' else if d = 1 then CHR ''1'' else if d = 2 then CHR ''2''
      else if d = 3 then CHR ''3'' else if d = 4 then CHR ''4'' else if d = 5 then CHR ''5''
      else if d = 6 then CHR ''6'' else if d = 7 then CHR ''7'' else if d = 8 then CHR ''8''
      else CHR ''9'')"

fun show_nat :: "nat \<Rightarrow> string" where
  "show_nat n = (if n < 10 then [digit_char n] else show_nat (n div 10) @ [digit_char (n mod 10)])"

declare show_nat.simps [simp del]

definition show_int :: "int \<Rightarrow> string" where
  "show_int i = (if i < 0 then CHR ''-'' # show_nat (nat (- i)) else show_nat (nat i))"

fun join_with :: "string \<Rightarrow> string list \<Rightarrow> string" where
  "join_with sep [] = []"
| "join_with sep [x] = x"
| "join_with sep (x # y # ys) = x @ sep @ join_with sep (y # ys)"

text \<open>
  String coercion, as performed by \<^verbatim>\<open>'text ' + x\<close>, by \<^verbatim>\<open>RegExp.test(x)\<close> and by a property
  access \<^verbatim>\<open>obj[x]\<close>.
\<close>

fun to_string :: "jsval \<Rightarrow> string" where
  "to_string JUndefined = ''undefined''"
| "to_string JNull = ''null''"
| "to_string (JBool b) = (if b then ''true'' else ''false'')"
| "to_string (JNum n) = show_int n"
| "to_string (JStr s) = s"
| "to_string (JArr xs) =
     join_with '','' (map (\<lambda>x. if x = JUndefined \<or> x = JNull then [] else to_string x) xs)"
| "to_string (JObj kvs) = ''[object Object]''"
| "to_string (JFun src) = src"

section \<open>Name validation\<close>

text \<open>
  \<^verbatim>\<open>isValidName\<close> builds the regular expression \<^verbatim>\<open>^([a-zA-Z0-9\-\_]){1,N}$\<close> and tests the
  name against it.  The character class is \<open>name_char\<close>.  The matcher below is the
  expression read from left to right: one character of the class, then at most \<open>N - 1\<close>
  more, then the end of the input (without the \<^verbatim>\<open>m\<close> flag, \<^verbatim>\<open>$\<close> matches at the very end only).
\<close>

definition name_char :: "char \<Rightarrow> bool" where
  "name_char c =
     (let n = (of_char c :: nat)
      in (97 \<le> n \<and> n \<le> 122) \<or> (65 \<le> n \<and> n \<le> 90) \<or> (48 \<le> n \<and> n \<le> 57)
         \<or> c = CHR ''-'' \<or> c = CHR ''_'')"

fun re_more :: "nat \<Rightarrow> string \<Rightarrow> bool" where
  "re_more k [] = True"
| "re_more 0 (c # cs) = False"
| "re_more (Suc k) (c # cs) = (name_char c \<and> re_more k cs)"

fun re_test :: "nat \<Rightarrow> string \<Rightarrow> bool" where
  "re_test n [] = False"
| "re_test 0 (c # cs) = False"
| "re_test (Suc k) (c # cs) = (name_char c \<and> re_more k cs)"

definition isValidName :: "jsval \<Rightarrow> nat \<Rightarrow> bool" where
  "isValidName name len =
     (if \<not> truthy name then False
      else let numOfChars = (if len = 0 then 24 else len)
           in re_test numOfChars (to_string name))"

definition isValidTopicName :: "jsval \<Rightarrow> bool" where
  "isValidTopicName topicName = isValidName topicName 24"

definition isValidQueueName :: "jsval \<Rightarrow> bool" where
  "isValidQueueName queueName = isValidName queueName 80"

section \<open>Event attributes\<close>

text \<open>
  The lodash predicates used by the conversion.  \<^verbatim>\<open>_.isEmpty\<close> is true of \<^verbatim>\<open>null\<close> and
  \<^verbatim>\<open>undefined\<close>, of an empty string, array or object, and of every value that is not a
  collection at all: numbers, booleans and functions have no own enumerable properties.
  \<^verbatim>\<open>_.isObject\<close> is true of objects, arrays and functions.
\<close>

definition ld_isUndefined :: "jsval \<Rightarrow> bool" where
  "ld_isUndefined v = (v = JUndefined)"

fun ld_isEmpty :: "jsval \<Rightarrow> bool" where
  "ld_isEmpty JUndefined = True"
| "ld_isEmpty JNull = True"
| "ld_isEmpty (JBool b) = True"
| "ld_isEmpty (JNum n) = True"
| "ld_isEmpty (JStr s) = (s = [])"
| "ld_isEmpty (JArr xs) = (xs = [])"
| "ld_isEmpty (JObj kvs) = (kvs = [])"
| "ld_isEmpty (JFun src) = True"

fun ld_isString :: "jsval \<Rightarrow> bool" where
  "ld_isString (JStr s) = True"
| "ld_isString v = False"

fun ld_isNumber :: "jsval \<Rightarrow> bool" where
  "ld_isNumber (JNum n) = True"
| "ld_isNumber v = False"

fun ld_isObject :: "jsval \<Rightarrow> bool" where
  "ld_isObject (JArr xs) = True"
| "ld_isObject (JObj kvs) = True"
| "ld_isObject (JFun src) = True"
| "ld_isObject v = False"

record attribute =
  DataType :: string
  StringValue :: string

text \<open>
  \<^verbatim>\<open>convertPropertyToAttribute(key, value)\<close> returns an object with the single property
  \<^verbatim>\<open>key\<close>, or \<^verbatim>\<open>undefined\<close>; the model returns that property, or \<open>None\<close>.  The branches are
  in the order of the source.
\<close>

definition convertPropertyToAttribute :: "string \<Rightarrow> jsval \<Rightarrow> (string \<times> attribute) option" where
  "convertPropertyToAttribute key v =
     (if ld_isUndefined v \<or> ld_isEmpty v then
        Some (key, \<lparr>DataType = ''String'', StringValue = ''[value is undefined]''\<rparr>)
      else if ld_isString v then
        Some (key, \<lparr>DataType = ''String'', StringValue = to_string v\<rparr>)
      else if ld_isNumber v then
        Some (key, \<lparr>DataType = ''Number'', StringValue = to_string v\<rparr>)
      else None)"

text \<open>Assignment \<^verbatim>\<open>obj[key] = v\<close> on an object kept as its list of properties.\<close>

fun set_prop :: "string \<Rightarrow> 'a \<Rightarrow> (string \<times> 'a) list \<Rightarrow> (string \<times> 'a) list" where
  "set_prop k v [] = [(k, v)]"
| "set_prop k v (p # ps) = (if fst p = k then (k, v) # ps else p # set_prop k v ps)"

text \<open>
  The body of the \<^verbatim>\<open>_.forEach\<close> callback of \<^verbatim>\<open>convertEventToMessageAttributes\<close>: an
  undefined value is logged and skipped, an object is skipped, anything else goes through
  \<^verbatim>\<open>convertPropertyToAttribute\<close>.  The event is the list of its own properties (an event has
  no numeric \<^verbatim>\<open>length\<close> property, which would make lodash iterate it as an array).
\<close>

definition convert_step :: "string \<times> jsval \<Rightarrow> (string \<times> attribute) list \<Rightarrow> (string \<times> attribute) list" where
  "convert_step kv attrs =
     (if ld_isUndefined (snd kv) then attrs
      else if ld_isObject (snd kv) then attrs
      else (case convertPropertyToAttribute (fst kv) (snd kv) of
              None \<Rightarrow> attrs
            | Some (k, a) \<Rightarrow> set_prop (fst kv) a attrs))"

definition convertEventToMessageAttributes :: "(string \<times> jsval) list \<Rightarrow> (string \<times> attribute) list" where
  "convertEventToMessageAttributes event = fold convert_step event []"

section \<open>Errors, outcomes and the process state\<close>

text \<open>
  Every asynchronous function of the module ends by calling its callback once, with an
  error or with a result.  The model returns what the callback receives: \<open>Failed e\<close> for
  \<^verbatim>\<open>cb(e)\<close>, \<open>Ok v\<close> for \<^verbatim>\<open>cb(null, v)\<close>.  \<open>Threw e\<close> is an exception that escapes instead, in
  which case the callback is never called.
\<close>

datatype error = Error string | TypeError string

datatype 'a outcome = Threw error | Failed error | Ok 'a

record subscription =
  SubscriptionArn :: string
  Owner :: string
  Protocol :: string
  Endpoint :: string
  TopicArn :: string

record queue =
  QueueName :: string
  QueueUrl :: string
  QueueArn :: string
  Attributes :: "(string \<times> string) list"

text \<open>
  A topic's access policy as \<^verbatim>\<open>JSON.parse\<close> returns it: an object whose \<^verbatim>\<open>Statement\<close> member
  is an array, with its other members kept aside.  The \<^verbatim>\<open>Policy\<close> attribute of a topic is
  absent, or a text that does not parse, or a text that parses to such a document.
\<close>

record policy =
  Statement :: "jsval list"
  members :: "(string \<times> jsval) list"

datatype policy_attr = NoPolicy | Unparsable string | Parsed policy

text \<open>The requests the module sends to the messaging provider, with their parameters.\<close>

datatype request =
    SnsCreateTopic string
  | SnsAddPermission string jsval
  | SnsDeleteTopic jsval
  | SnsListTopics "nat option"
  | SnsListSubscriptionsByTopic jsval
  | SnsSubscribe jsval string
  | SnsSetSubscriptionAttributes string "string option"
  | SnsGetTopicAttributes jsval
  | SnsSetTopicAttributes jsval policy
  | SqsCreateQueue string "(string \<times> string) list"
  | SqsDeleteQueue string
  | SqsGetQueueUrl string
  | SqsGetQueueAttributes string
  | SqsSetQueueAttributes string "(string \<times> string) list"

text \<open>
  The state a call runs in.  The first three fields are the module's own variables
  (\<^verbatim>\<open>environmentName\<close>, \<^verbatim>\<open>serviceName\<close>, \<^verbatim>\<open>cachedTopicArns\<close>; \<open>None\<close> is \<^verbatim>\<open>undefined\<close>).  Then come
  the inputs the module reads: three variables of \<^verbatim>\<open>process.env\<close> and the answer of the scope
  service for \<^verbatim>\<open>voyent_config.default.host\<close>.  The rest is the messaging provider, which the
  module reaches through \<^verbatim>\<open>awsClient.getClients\<close>: a store of topics, queues, subscriptions
  and policies, the list \<open>calls\<close> of the requests received so far, and \<open>faults\<close>, which
  decides for each coming request whether it fails (\<open>Some e\<close>) before having any effect.
\<close>

record world =
  environmentName :: "string option"
  serviceName :: "string option"
  cachedTopicArns :: "string \<rightharpoonup> string"
  env_ENVIRONMENT_NAME :: "string option"
  env_SERVICE_NAME :: "string option"
  env_topicAccountPermissions :: "string option"
  voyent_config_host :: "error + string option"
  faults :: "error option list"
  calls :: "request list"
  topics :: "string list"
  page_extra :: nat
  queues :: "queue list"
  subscriptions :: "subscription list"
  filters :: "(string \<times> string) list"
  policies :: "(string \<times> policy_attr) list"
  next_id :: nat

text \<open>
  The ubiquitous \<^verbatim>\<open>if (err) { cb(err); return; }\<close>: the next step runs on the result of a
  successful one, and a failure goes to the callback as it is.
\<close>

definition and_then ::
  "'a outcome \<times> world \<Rightarrow> ('a \<Rightarrow> world \<Rightarrow> 'b outcome \<times> world) \<Rightarrow> 'b outcome \<times> world" where
  "and_then m f =
     (case m of
        (Ok v, w) \<Rightarrow> f v w
      | (Failed e, w) \<Rightarrow> (Failed e, w)
      | (Threw e, w) \<Rightarrow> (Threw e, w))"

section \<open>Strings\<close>

fun starts_with :: "string \<Rightarrow> string \<Rightarrow> bool" where
  "starts_with [] s = True"
| "starts_with (p # ps) [] = False"
| "starts_with (p # ps) (c # cs) = (p = c \<and> starts_with ps cs)"

text \<open>\<^verbatim>\<open>s.indexOf(pat)\<close>; \<open>None\<close> stands for \<^verbatim>\<open>-1\<close>.\<close>

fun index_of :: "string \<Rightarrow> string \<Rightarrow> nat option" where
  "index_of pat [] = (if pat = [] then Some 0 else None)"
| "index_of pat (c # cs) =
     (if starts_with pat (c # cs) then Some 0 else map_option Suc (index_of pat cs))"

text \<open>\<^verbatim>\<open>s.split(c)\<close> for a one-character separator.\<close>

fun split_on :: "char \<Rightarrow> string \<Rightarrow> string list" where
  "split_on c [] = [[]]"
| "split_on c (x # xs) =
     (if x = c then [] # split_on c xs
      else (case split_on c xs of [] \<Rightarrow> [[x]] | p # ps \<Rightarrow> (x # p) # ps))"

definition is_space :: "char \<Rightarrow> bool" where
  "is_space c = (c = CHR '' '' \<or> c = CHR 0x09 \<or> c = CHR 0x0A \<or> c = CHR 0x0B
                 \<or> c = CHR 0x0C \<or> c = CHR 0x0D)"

definition trim :: "string \<Rightarrow> string" where
  "trim s = rev (dropWhile is_space (rev (dropWhile is_space s)))"

text \<open>A string variable that is set and not empty, which is what \<^verbatim>\<open>if (x)\<close> asks of it.\<close>

definition nonempty :: "string option \<Rightarrow> string option" where
  "nonempty so = (case so of None \<Rightarrow> None | Some s \<Rightarrow> if s = [] then None else Some s)"

section \<open>Environment and service names, qualified names\<close>

definition getEnvironmentName :: "world \<Rightarrow> string outcome \<times> world" where
  "getEnvironmentName w =
     (case nonempty (environmentName w) of
        Some e \<Rightarrow> (Ok e, w)
      | None \<Rightarrow>
         (case nonempty (env_ENVIRONMENT_NAME w) of
            Some e \<Rightarrow> (Ok e, w\<lparr>environmentName := Some e\<rparr>)
          | None \<Rightarrow>
             (case voyent_config_host w of
                Inl err \<Rightarrow> (Failed err, w)
              | Inr h \<Rightarrow>
                 (case nonempty h of
                    None \<Rightarrow>
                      (Failed (Error ''cannot find voyent_config.default.host in environment scope''), w)
                  | Some host \<Rightarrow>
                      let e1 = (case index_of ''.'' host of
                                  None \<Rightarrow> host
                                | Some firstDot \<Rightarrow> if 0 < firstDot then take firstDot host else host);
                          e2 = (if 12 < length e1 then take 11 e1 else e1)
                      in (Ok e2, w\<lparr>environmentName := Some e2\<rparr>)))))"

definition getServiceName :: "world \<Rightarrow> string \<times> world" where
  "getServiceName w =
     (let s1 = (case nonempty (serviceName w) of
                  Some s \<Rightarrow> s
                | None \<Rightarrow> (case nonempty (env_SERVICE_NAME w) of
                             Some s \<Rightarrow> s
                           | None \<Rightarrow> ''SERVICE_NAME_UNKNOWN''));
          s2 = (if 24 < length s1 then take 23 s1 else s1)
      in (s2, w\<lparr>serviceName := Some s2\<rparr>))"

definition getQualifiedTopicName :: "jsval \<Rightarrow> world \<Rightarrow> string outcome \<times> world" where
  "getQualifiedTopicName topicName w =
     (if \<not> isValidTopicName topicName then
        (Failed (Error (''topic name is invalid '' @ to_string topicName)), w)
      else and_then (getEnvironmentName w)
             (\<lambda>eName w1. (Ok (eName @ ''_'' @ to_string topicName), w1)))"

definition getQualifiedQueueName :: "jsval \<Rightarrow> jsval \<Rightarrow> world \<Rightarrow> string outcome \<times> world" where
  "getQualifiedQueueName topicName queueName w =
     (if \<not> isValidTopicName topicName then
        (Failed (Error (''topic name is invalid '' @ to_string topicName)), w)
      else if \<not> isValidQueueName queueName then
        (Failed (Error (''queue name is invalid '' @ to_string queueName)), w)
      else and_then (getQualifiedTopicName topicName w)
             (\<lambda>tName w1.
                let (sName, w2) = getServiceName w1
                in (Ok (tName @ ''_'' @ sName @ ''_'' @ to_string queueName), w2)))"

definition MULTIPLE_TOPICS :: string where
  "MULTIPLE_TOPICS = ''multipleTopics''"

definition DLQ_TOPIC_NAME :: string where
  "DLQ_TOPIC_NAME = ''internal''"

definition DLQ_QUEUE_NAME :: string where
  "DLQ_QUEUE_NAME = ''dlq''"

text \<open>
  \<^verbatim>\<open>getTopicName(topicNames)\<close>: the only name of a one-element array, the reserved name
  otherwise (an empty array included).
\<close>

definition getTopicName :: "jsval list \<Rightarrow> jsval" where
  "getTopicName topicNames =
     (case topicNames of [t] \<Rightarrow> t | _ \<Rightarrow> JStr MULTIPLE_TOPICS)"

text \<open>
  The state of a process that has just started, facing a provider that holds nothing and
  answers every request: the starting point of the concrete runs below.
\<close>

definition initial_world :: world where
  "initial_world =
     \<lparr>environmentName = None, serviceName = None, cachedTopicArns = Map.empty,
      env_ENVIRONMENT_NAME = None, env_SERVICE_NAME = None,
      env_topicAccountPermissions = None, voyent_config_host = Inr None,
      faults = [], calls = [], topics = [], page_extra = 99, queues = [],
      subscriptions = [], filters = [], policies = [], next_id = 0\<rparr>"

section \<open>The messaging provider\<close>

text \<open>
  The provider is an external collaborator.  It is modelled as a store in memory that
  does what the requests say and nothing more: it neither merges a repeated subscription
  nor rewrites a policy, so whatever is idempotent below is so by the module's own code.
  A request is \<^verbatim>\<open>awsClient.getClients\<close> followed by the call on the client; in the source
  the error of either goes to the same callback, and here both are one step.  The step
  records the request and consumes the head of \<open>faults\<close>; it fails if that head is an
  error, and otherwise answers.
\<close>

definition provider ::
  "request \<Rightarrow> world \<Rightarrow> (world \<Rightarrow> 'a outcome \<times> world) \<Rightarrow> 'a outcome \<times> world" where
  "provider req w respond =
     (let w1 = w\<lparr>calls := calls w @ [req], faults := drop 1 (faults w)\<rparr>
      in case faults w of
           Some e # fs \<Rightarrow> (Failed e, w1)
         | _ \<Rightarrow> respond w1)"

definition sns_arn :: "string \<Rightarrow> string" where
  "sns_arn name = ''arn:aws:sns:us-east-1:000000000000:'' @ name"

definition sqs_arn :: "string \<Rightarrow> string" where
  "sqs_arn name = ''arn:aws:sqs:us-east-1:000000000000:'' @ name"

definition sqs_url :: "string \<Rightarrow> string" where
  "sqs_url name = ''https://sqs.us-east-1.amazonaws.com/000000000000/'' @ name"

text \<open>A parameter that must be a string: the client library refuses anything else.\<close>

definition string_param :: "string \<Rightarrow> jsval \<Rightarrow> error + string" where
  "string_param key v =
     (case v of
        JStr s \<Rightarrow> Inr s
      | JUndefined \<Rightarrow> Inl (Error (''MissingRequiredParameter: Missing required key '' @ key @ '' in params''))
      | JNull \<Rightarrow> Inl (Error (''MissingRequiredParameter: Missing required key '' @ key @ '' in params''))
      | _ \<Rightarrow> Inl (Error (''InvalidParameterType: Expected params.'' @ key @ '' to be a string'')))"

definition default_policy :: policy where
  "default_policy = \<lparr>Statement = [], members = [(''Version'', JStr ''2008-10-17'')]\<rparr>"

definition sns_createTopic :: "string \<Rightarrow> world \<Rightarrow> string outcome \<times> world" where
  "sns_createTopic name w =
     provider (SnsCreateTopic name) w
       (\<lambda>w1. let arn = sns_arn name
              in (Ok arn,
                  if arn \<in> set (topics w1) then w1
                  else w1\<lparr>topics := topics w1 @ [arn],
                         policies := policies w1 @ [(arn, Parsed default_policy)]\<rparr>))"

definition sns_addPermission :: "string \<Rightarrow> jsval \<Rightarrow> world \<Rightarrow> unit outcome \<times> world" where
  "sns_addPermission account topicArn w =
     provider (SnsAddPermission account topicArn) w
       (\<lambda>w1. case string_param ''TopicArn'' topicArn of
                Inl e \<Rightarrow> (Failed e, w1)
              | Inr arn \<Rightarrow> (Ok (), w1))"

definition sns_deleteTopic :: "jsval \<Rightarrow> world \<Rightarrow> unit outcome \<times> world" where
  "sns_deleteTopic topicArn w =
     provider (SnsDeleteTopic topicArn) w
       (\<lambda>w1. case string_param ''TopicArn'' topicArn of
                Inl e \<Rightarrow> (Failed e, w1)
              | Inr arn \<Rightarrow>
                  (Ok (), w1\<lparr>topics := removeAll arn (topics w1),
                             subscriptions := filter (\<lambda>sub. TopicArn sub \<noteq> arn) (subscriptions w1)\<rparr>))"

text \<open>
  Listing is paginated: a request returns at most \<open>page_extra + 1\<close> topics from the offset
  its token names, and a token for the rest when there is a rest.
\<close>

definition sns_listTopics :: "nat option \<Rightarrow> world \<Rightarrow> (string list \<times> nat option) outcome \<times> world" where
  "sns_listTopics nextToken w =
     provider (SnsListTopics nextToken) w
       (\<lambda>w1. let off = (case nextToken of None \<Rightarrow> 0 | Some k \<Rightarrow> k);
                  n = Suc (page_extra w1)
              in (Ok (take n (drop off (topics w1)),
                      if off + n < length (topics w1) then Some (off + n) else None),
                  w1))"

section \<open>Topic ARNs and their cache\<close>

text \<open>
  \<^verbatim>\<open>cachedTopicArns\<close> is a plain object, so a read \<^verbatim>\<open>cachedTopicArns[name]\<close> also finds what
  every object inherits from \<^verbatim>\<open>Object.prototype\<close>, and a write to \<^verbatim>\<open>__proto__\<close> with a string
  is ignored.  The field of the state holds the own properties.
\<close>

definition object_prototype_members :: "string list" where
  "object_prototype_members =
     [''constructor'', ''__defineGetter__'', ''__defineSetter__'', ''hasOwnProperty'',
      ''__lookupGetter__'', ''__lookupSetter__'', ''isPrototypeOf'', ''propertyIsEnumerable'',
      ''toString'', ''valueOf'', ''toLocaleString'']"

definition cache_get :: "(string \<rightharpoonup> string) \<Rightarrow> string \<Rightarrow> jsval" where
  "cache_get cache key =
     (if key = ''__proto__'' then JObj []
      else (case cache key of
              Some arn \<Rightarrow> JStr arn
            | None \<Rightarrow>
                if key \<in> set object_prototype_members
                then JFun (''function '' @ key @ ''() { [native code] }'')
                else JUndefined))"

definition cache_set :: "(string \<rightharpoonup> string) \<Rightarrow> string \<Rightarrow> string \<Rightarrow> (string \<rightharpoonup> string)" where
  "cache_set cache key arn = (if key = ''__proto__'' then cache else cache(key \<mapsto> arn))"

text \<open>
  \<^verbatim>\<open>getAllTopics\<close>: the \<^verbatim>\<open>async.doWhilst\<close> loop asks for a page, appends it, and goes on while
  the answer carries a token.
\<close>

function getAllTopics_loop ::
  "nat option \<Rightarrow> string list \<Rightarrow> world \<Rightarrow> string list outcome \<times> world" where
  "getAllTopics_loop nextToken allTopics w =
     (case sns_listTopics nextToken w of
        (Ok (page, Some tok), w1) \<Rightarrow> getAllTopics_loop (Some tok) (allTopics @ page) w1
      | (Ok (page, None), w1) \<Rightarrow> (Ok (allTopics @ page), w1)
      | (Failed e, w1) \<Rightarrow> (Failed e, w1)
      | (Threw e, w1) \<Rightarrow> (Threw e, w1))"
  by pat_completeness auto
termination
proof (relation "measure (\<lambda>(nextToken, allTopics, w).
         case nextToken of None \<Rightarrow> Suc (length (topics w)) | Some k \<Rightarrow> length (topics w) - k)",
       goal_cases)
  case 1
  show ?case by simp
next
  case (2 nextToken allTopics w x1 w1 x3 page x2a tok)
  then have "sns_listTopics nextToken w = (Ok (page, Some tok), w1)"
    by simp
  then have "topics w1 = topics w
      \<and> tok = (case nextToken of None \<Rightarrow> 0 | Some k \<Rightarrow> k) + Suc (page_extra w)
      \<and> tok < length (topics w)"
    by (auto simp: sns_listTopics_def provider_def Let_def split: list.splits option.splits if_splits)
  then show ?case
    by (auto split: option.splits)
qed

declare getAllTopics_loop.simps [simp del]

definition getAllTopics :: "world \<Rightarrow> string list outcome \<times> world" where
  "getAllTopics w = getAllTopics_loop None [] w"

text \<open>
  The body of the \<^verbatim>\<open>_.each\<close> of \<^verbatim>\<open>cacheTopicArns\<close>: an ARN that contains the prefix
  \<^verbatim>\<open>envName + '_'\<close> is stored under what follows the first occurrence of the prefix.
\<close>

definition cache_item :: "string \<Rightarrow> string \<Rightarrow> (string \<rightharpoonup> string) \<Rightarrow> (string \<rightharpoonup> string)" where
  "cache_item envName arn cache =
     (let envPrefix = envName @ ''_''
      in case index_of envPrefix arn of
           None \<Rightarrow> cache
         | Some envNameIndex \<Rightarrow>
             let envTopicName = drop envNameIndex arn;
                 topicName = drop (length envPrefix) envTopicName
             in cache_set cache topicName arn)"

definition cacheTopicArns :: "world \<Rightarrow> unit outcome \<times> world" where
  "cacheTopicArns w =
     and_then (getAllTopics w)
       (\<lambda>allTopics w1.
          and_then (getEnvironmentName w1)
            (\<lambda>envName w2.
               (Ok (), w2\<lparr>cachedTopicArns := fold (cache_item envName) allTopics (cachedTopicArns w2)\<rparr>)))"

definition getTopicArn :: "jsval \<Rightarrow> world \<Rightarrow> jsval outcome \<times> world" where
  "getTopicArn topicName w =
     (if \<not> isValidTopicName topicName then
        (Failed (Error (''invalid topic name '' @ to_string topicName)), w)
      else if truthy (cache_get (cachedTopicArns w) (to_string topicName)) then
        (Ok (cache_get (cachedTopicArns w) (to_string topicName)), w)
      else and_then (cacheTopicArns w)
             (\<lambda>u w1.
                let topicArn = cache_get (cachedTopicArns w1) (to_string topicName)
                in if \<not> truthy topicArn then
                     (Failed (Error (''cannot get ARN for '' @ to_string topicName)), w1)
                   else (Ok topicArn, w1)))"

text \<open>
  \<^verbatim>\<open>queuedGetTopicArn\<close> pushes the lookup on \<^verbatim>\<open>arnQueue\<close>, whose worker runs \<^verbatim>\<open>getTopicArn\<close>.
  In a run where the operations follow one another the queue is empty at each push, so
  the lookup runs at once and its result goes to the callback unchanged.
\<close>

definition queuedGetTopicArn :: "jsval \<Rightarrow> world \<Rightarrow> jsval outcome \<times> world" where
  "queuedGetTopicArn topicName w = getTopicArn topicName w"

section \<open>Topics\<close>

text \<open>
  The loop of \<^verbatim>\<open>getPublishPermissionParams\<close> over the entries of
  \<^verbatim>\<open>process.env.topicAccountPermissions\<close>.  An entry that names the topic and has no \<^verbatim>\<open>:\<close>
  makes \<^verbatim>\<open>pieces[1].trim()\<close> throw.
\<close>

fun scan_entries :: "jsval \<Rightarrow> string list \<Rightarrow> string option \<Rightarrow> error + string option" where
  "scan_entries topicName [] account = Inr account"
| "scan_entries topicName (entry # entries) account =
     (case split_on CHR '':'' entry of
        [] \<Rightarrow> scan_entries topicName entries account
      | p0 # rest \<Rightarrow>
          if JStr (trim p0) = topicName then
            (case rest of
               [] \<Rightarrow> Inl (TypeError ''Cannot read property trim of undefined'')
             | p1 # ps \<Rightarrow> scan_entries topicName entries (Some (trim p1)))
          else scan_entries topicName entries account)"

definition getPublishPermissionParams :: "jsval \<Rightarrow> string \<Rightarrow> world \<Rightarrow> error + (string \<times> string) option" where
  "getPublishPermissionParams topicName topicArn w =
     (case nonempty (env_topicAccountPermissions w) of
        None \<Rightarrow> Inr None
      | Some tap \<Rightarrow>
          (case scan_entries topicName (split_on CHR '','' tap) None of
             Inl e \<Rightarrow> Inl e
           | Inr account \<Rightarrow>
               (case nonempty account of
                  None \<Rightarrow> Inr None
                | Some a \<Rightarrow> Inr (Some (a, topicArn)))))"

text \<open>
  \<^verbatim>\<open>createTopic\<close>.  When \<^verbatim>\<open>addPermission\<close> fails, the source calls \<^verbatim>\<open>cb(err)\<close> with the \<^verbatim>\<open>err\<close>
  of the enclosing \<^verbatim>\<open>createTopic\<close> callback, which is null there: the caller sees a success.
\<close>

definition createTopic :: "jsval \<Rightarrow> world \<Rightarrow> unit outcome \<times> world" where
  "createTopic topicName w =
     (if \<not> isValidTopicName topicName then
        (Failed (Error (''topic name is invalid '' @ to_string topicName)), w)
      else and_then (getQualifiedTopicName topicName w)
        (\<lambda>tName w1.
           and_then (sns_createTopic tName w1)
             (\<lambda>topicArn w2.
                case getPublishPermissionParams topicName topicArn w2 of
                  Inl e \<Rightarrow> (Threw e, w2)
                | Inr None \<Rightarrow> (Ok (), w2)
                | Inr (Some (account, arn)) \<Rightarrow>
                    (case sns_addPermission account (JStr arn) w2 of
                       (Failed permissionErr, w3) \<Rightarrow> (Ok (), w3)
                     | (Ok u, w3) \<Rightarrow> (Ok (), w3)
                     | (Threw e, w3) \<Rightarrow> (Threw e, w3)))))"

text \<open>
  \<^verbatim>\<open>deleteTopic\<close>.  The callback given to \<^verbatim>\<open>queuedGetTopicArn\<close> never looks at its \<^verbatim>\<open>err\<close>: it
  builds the parameters from \<^verbatim>\<open>topicArn\<close>, which is undefined when the resolution failed, and
  sends the request.
\<close>

definition deleteTopic :: "jsval \<Rightarrow> world \<Rightarrow> unit outcome \<times> world" where
  "deleteTopic topicName w =
     (if \<not> isValidTopicName topicName then
        (Failed (Error (''topic name is invalid '' @ to_string topicName)), w)
      else (case queuedGetTopicArn topicName w of
              (Ok topicArn, w1) \<Rightarrow> sns_deleteTopic topicArn w1
            | (Failed err, w1) \<Rightarrow> sns_deleteTopic JUndefined w1
            | (Threw err, w1) \<Rightarrow> sns_deleteTopic JUndefined w1))"

section \<open>JSON text\<close>

definition hex_digit :: "nat \<Rightarrow> char" where
  "hex_digit n = (if n mod 16 < 10 then digit_char (n mod 16) else ''abcdef'' ! (n mod 16 - 10))"

definition escape_char :: "char \<Rightarrow> string" where
  "escape_char c =
     (if c = CHR 0x22 then [CHR 0x5C, CHR 0x22]
      else if c = CHR 0x5C then [CHR 0x5C, CHR 0x5C]
      else if c = CHR 0x08 then [CHR 0x5C, CHR ''b'']
      else if c = CHR 0x0C then [CHR 0x5C, CHR ''f'']
      else if c = CHR 0x0A then [CHR 0x5C, CHR ''n'']
      else if c = CHR 0x0D then [CHR 0x5C, CHR ''r'']
      else if c = CHR 0x09 then [CHR 0x5C, CHR ''t'']
      else if (of_char c :: nat) < 32 then
        [CHR 0x5C, CHR ''u'', CHR ''0'', CHR ''0'', hex_digit (of_char c div 16), hex_digit (of_char c)]
      else [c])"

definition quote :: "string \<Rightarrow> string" where
  "quote s = CHR 0x22 # concat (map escape_char s) @ [CHR 0x22]"

text \<open>
  \<^verbatim>\<open>JSON.stringify\<close>; \<open>None\<close> is the \<^verbatim>\<open>undefined\<close> it returns for \<^verbatim>\<open>undefined\<close> and for a function.
  Inside an array such a value is written \<^verbatim>\<open>null\<close>, inside an object the property is left
  out.  Members are written in the order the object enumerates them.
\<close>

fun stringify :: "jsval \<Rightarrow> string option" where
  "stringify JUndefined = None"
| "stringify JNull = Some ''null''"
| "stringify (JBool b) = Some (if b then ''true'' else ''false'')"
| "stringify (JNum n) = Some (show_int n)"
| "stringify (JStr s) = Some (quote s)"
| "stringify (JArr xs) =
     Some (''['' @ join_with '',''
             (map (\<lambda>x. case stringify x of None \<Rightarrow> ''null'' | Some t \<Rightarrow> t) xs) @ '']'')"
| "stringify (JObj kvs) =
     Some (''{'' @ join_with '',''
             (concat (map (\<lambda>kv. case stringify (snd kv) of
                                    None \<Rightarrow> []
                                  | Some t \<Rightarrow> [quote (fst kv) @ '':'' @ t]) kvs)) @ ''}'')"
| "stringify (JFun src) = None"


definition json_text :: "jsval \<Rightarrow> string" where
  "json_text v = (case stringify v of None \<Rightarrow> ''undefined'' | Some t \<Rightarrow> t)"

section \<open>Queues\<close>

definition sqs_createQueue :: "string \<Rightarrow> (string \<times> string) list \<Rightarrow> world \<Rightarrow> string outcome \<times> world" where
  "sqs_createQueue qName attrs w =
     provider (SqsCreateQueue qName attrs) w
       (\<lambda>w1. case find (\<lambda>q. QueueName q = qName) (queues w1) of
                Some q \<Rightarrow> (Ok (QueueUrl q), w1)
              | None \<Rightarrow>
                  (Ok (sqs_url qName),
                   w1\<lparr>queues := queues w1 @
                        [\<lparr>QueueName = qName, QueueUrl = sqs_url qName,
                          QueueArn = sqs_arn qName, Attributes = attrs\<rparr>]\<rparr>))"

definition sqs_getQueueUrl :: "string \<Rightarrow> world \<Rightarrow> string outcome \<times> world" where
  "sqs_getQueueUrl qName w =
     provider (SqsGetQueueUrl qName) w
       (\<lambda>w1. case find (\<lambda>q. QueueName q = qName) (queues w1) of
                Some q \<Rightarrow> (Ok (QueueUrl q), w1)
              | None \<Rightarrow> (Failed (Error ''AWS.SimpleQueueService.NonExistentQueue''), w1))"

definition sqs_getQueueAttributes :: "string \<Rightarrow> world \<Rightarrow> string outcome \<times> world" where
  "sqs_getQueueAttributes qURL w =
     provider (SqsGetQueueAttributes qURL) w
       (\<lambda>w1. case find (\<lambda>q. QueueUrl q = qURL) (queues w1) of
                Some q \<Rightarrow> (Ok (QueueArn q), w1)
              | None \<Rightarrow> (Failed (Error ''AWS.SimpleQueueService.NonExistentQueue''), w1))"

definition sqs_setQueueAttributes :: "string \<Rightarrow> (string \<times> string) list \<Rightarrow> world \<Rightarrow> unit outcome \<times> world" where
  "sqs_setQueueAttributes qURL attrs w =
     provider (SqsSetQueueAttributes qURL attrs) w
       (\<lambda>w1. case find (\<lambda>q. QueueUrl q = qURL) (queues w1) of
                None \<Rightarrow> (Failed (Error ''AWS.SimpleQueueService.NonExistentQueue''), w1)
              | Some q0 \<Rightarrow>
                  (Ok (),
                   w1\<lparr>queues :=
                        map (\<lambda>q. if QueueUrl q = qURL
                                  then q\<lparr>Attributes := fold (\<lambda>kv. set_prop (fst kv) (snd kv)) attrs (Attributes q)\<rparr>
                                  else q)
                            (queues w1)\<rparr>))"

definition sqs_deleteQueue :: "string \<Rightarrow> world \<Rightarrow> unit outcome \<times> world" where
  "sqs_deleteQueue qURL w =
     provider (SqsDeleteQueue qURL) w
       (\<lambda>w1. case find (\<lambda>q. QueueUrl q = qURL) (queues w1) of
                None \<Rightarrow> (Failed (Error ''AWS.SimpleQueueService.NonExistentQueue''), w1)
              | Some q0 \<Rightarrow> (Ok (), w1\<lparr>queues := filter (\<lambda>q. QueueUrl q \<noteq> qURL) (queues w1)\<rparr>))"

definition getQueueUrl :: "jsval \<Rightarrow> jsval \<Rightarrow> world \<Rightarrow> string outcome \<times> world" where
  "getQueueUrl topicName queueName w =
     (if \<not> isValidTopicName topicName then
        (Failed (Error (''topic name is invalid '' @ to_string topicName)), w)
      else if \<not> isValidQueueName queueName then
        (Failed (Error (''queue name is invalid '' @ to_string queueName)), w)
      else and_then (getQualifiedQueueName topicName queueName w)
             (\<lambda>qName w1. sqs_getQueueUrl qName w1))"

text \<open>
  \<^verbatim>\<open>getQueueArn\<close> reads \<^verbatim>\<open>Attributes.QueueArn\<close> from the answer; the store answers every
  existing queue with its attributes, so the branch for a missing answer has no case here.
\<close>

definition getQueueArn :: "jsval \<Rightarrow> jsval \<Rightarrow> world \<Rightarrow> string outcome \<times> world" where
  "getQueueArn topicName queueName w =
     and_then (getQueueUrl topicName queueName w)
       (\<lambda>qURL w1.
          if qURL = [] then
            (Failed (Error (''queue does not exist for '' @ to_string topicName @ '' ''
                            @ to_string queueName)), w1)
          else sqs_getQueueAttributes qURL w1)"

text \<open>
  \<^verbatim>\<open>getQueuePolicy\<close>: the first five \<^verbatim>\<open>:\<close>-separated pieces of the queue ARN, with the third
  replaced by \<^verbatim>\<open>sns\<close>, joined again and followed by \<^verbatim>\<open>:*\<close>, are the source ARN of the policy.
\<close>

definition set_third :: "string list \<Rightarrow> string \<Rightarrow> string list" where
  "set_third pieces v =
     (case pieces of
        [] \<Rightarrow> [[], [], v]
      | [a] \<Rightarrow> [a, [], v]
      | a # b # rest \<Rightarrow> a # b # v # drop 1 rest)"

definition getQueuePolicy :: "string \<Rightarrow> jsval" where
  "getQueuePolicy queueArn =
     (let split = set_third (take 5 (split_on CHR '':'' queueArn)) ''sns'';
          sourceArn = join_with '':'' split @ '':*''
      in JObj
           [(''Version'', JStr ''2012-10-17''),
            (''Id'', JStr (queueArn @ ''/SQSDefaultPolicy'')),
            (''Statement'',
             JArr [JObj [(''Effect'', JStr ''Allow''),
                         (''Principal'', JObj [(''AWS'', JStr ''*'')]),
                         (''Action'', JStr ''SQS:SendMessage''),
                         (''Resource'', JStr queueArn),
                         (''Condition'',
                          JObj [(''ArnEquals'', JObj [(''aws:SourceArn'', JStr sourceArn)])])]])])"

definition getRedrivePolicy :: "string \<Rightarrow> jsval" where
  "getRedrivePolicy dlqArn =
     JObj [(''deadLetterTargetArn'', JStr dlqArn), (''maxReceiveCount'', JStr ''10'')]"

definition createDeadLetterQueue :: "world \<Rightarrow> string outcome \<times> world" where
  "createDeadLetterQueue w =
     and_then (getQualifiedQueueName (JStr DLQ_TOPIC_NAME) (JStr DLQ_QUEUE_NAME) w)
       (\<lambda>qName w1.
          and_then (sqs_createQueue qName [(''MessageRetentionPeriod'', ''1209600'')] w1)
            (\<lambda>dataQueueUrl w2.
               and_then (getQueueArn (JStr DLQ_TOPIC_NAME) (JStr DLQ_QUEUE_NAME) w2)
                 (\<lambda>queueArn w3.
                    and_then (sqs_setQueueAttributes dataQueueUrl
                                [(''Policy'', json_text (getQueuePolicy queueArn))] w3)
                      (\<lambda>u w4. (Ok queueArn, w4)))))"

text \<open>
  \<^verbatim>\<open>createQueue(topicName, queueName, cb)\<close>: what the function hands to \<^verbatim>\<open>cb\<close>.  The second
  step of its waterfall has a parameter of its own called \<^verbatim>\<open>queueName\<close> (the qualified
  name); the third step uses the outer one again.
\<close>

definition createQueue :: "jsval \<Rightarrow> jsval \<Rightarrow> world \<Rightarrow> string outcome \<times> world" where
  "createQueue topicName queueName w =
     (if \<not> isValidTopicName topicName then
        (Failed (Error (''topic name is invalid '' @ to_string topicName)), w)
      else if \<not> isValidQueueName queueName then
        (Failed (Error (''queue name is invalid '' @ to_string queueName)), w)
      else
        and_then (getQualifiedQueueName topicName queueName w)
          (\<lambda>qName w1.
             and_then (sqs_createQueue qName
                         [(''MessageRetentionPeriod'', ''43200''),
                          (''ReceiveMessageWaitTimeSeconds'', ''20''),
                          (''VisibilityTimeout'', ''180'')] w1)
               (\<lambda>queueUrl w2.
                  and_then (getQueueArn topicName queueName w2)
                    (\<lambda>queueArn w3.
                       and_then (createDeadLetterQueue w3)
                         (\<lambda>dlqArn w4.
                            and_then (sqs_setQueueAttributes queueUrl
                                        [(''Policy'', json_text (getQueuePolicy queueArn)),
                                         (''RedrivePolicy'', json_text (getRedrivePolicy dlqArn))] w4)
                              (\<lambda>u w5. (Ok queueArn, w5)))))))"

definition deleteQueue :: "jsval \<Rightarrow> jsval \<Rightarrow> world \<Rightarrow> unit outcome \<times> world" where
  "deleteQueue topicName queueName w =
     (if \<not> isValidTopicName topicName then
        (Failed (Error (''topic name is invalid '' @ to_string topicName)), w)
      else if \<not> isValidQueueName queueName then
        (Failed (Error (''queue name is invalid '' @ to_string queueName)), w)
      else and_then (getQueueUrl topicName queueName w)
             (\<lambda>qURL w1. sqs_deleteQueue qURL w1))"

section \<open>Batches\<close>

text \<open>
  \<^verbatim>\<open>async.map(items, iteratee, callback)\<close> starts the iteratee on every item and calls the
  callback with the first error any of them reports, or with all the results.  The items
  are run here one after the other, in the order of the array, which is one of the
  schedules the library allows; an item started after a failure still runs, and its
  result is dropped.  An exception thrown by an iteratee escapes from \<^verbatim>\<open>async.map\<close>.
\<close>

fun async_map ::
  "('a \<Rightarrow> world \<Rightarrow> 'b outcome \<times> world) \<Rightarrow> 'a list \<Rightarrow> world \<Rightarrow> 'b list outcome \<times> world" where
  "async_map iteratee [] w = (Ok [], w)"
| "async_map iteratee (x # xs) w =
     (case iteratee x w of
        (Threw e, w1) \<Rightarrow> (Threw e, w1)
      | (Failed e, w1) \<Rightarrow>
          (case async_map iteratee xs w1 of
             (Threw e2, w2) \<Rightarrow> (Threw e2, w2)
           | (Failed e2, w2) \<Rightarrow> (Failed e, w2)
           | (Ok vs, w2) \<Rightarrow> (Failed e, w2))
      | (Ok v, w1) \<Rightarrow>
          (case async_map iteratee xs w1 of
             (Threw e2, w2) \<Rightarrow> (Threw e2, w2)
           | (Failed e2, w2) \<Rightarrow> (Failed e2, w2)
           | (Ok vs, w2) \<Rightarrow> (Ok (v # vs), w2)))"

definition async_each ::
  "('a \<Rightarrow> world \<Rightarrow> 'b outcome \<times> world) \<Rightarrow> 'a list \<Rightarrow> world \<Rightarrow> unit outcome \<times> world" where
  "async_each iteratee items w = and_then (async_map iteratee items w) (\<lambda>vs w1. (Ok (), w1))"

definition createTopics :: "jsval list \<Rightarrow> world \<Rightarrow> unit list outcome \<times> world" where
  "createTopics names w =
     (if names = [] then (Failed (Error ''no array of topic names provided''), w)
      else async_map createTopic names w)"

definition deleteTopics :: "jsval list \<Rightarrow> world \<Rightarrow> unit list outcome \<times> world" where
  "deleteTopics names w =
     (if names = [] then (Failed (Error ''no array of topic names provided''), w)
      else async_map deleteTopic names w)"

text \<open>
  \<^verbatim>\<open>createQueues\<close> and \<^verbatim>\<open>deleteQueues\<close> hand \<^verbatim>\<open>createQueue\<close> and \<^verbatim>\<open>deleteQueue\<close> to
  \<^verbatim>\<open>async.map\<close>, which calls its iteratee with two arguments, the item and a callback.  Both
  functions take three parameters \<^verbatim>\<open>(topicName, queueName, cb)\<close>: the item arrives as
  \<^verbatim>\<open>topicName\<close>, the callback of the library as \<^verbatim>\<open>queueName\<close>, and \<^verbatim>\<open>cb\<close> is undefined, so that
  the call \<^verbatim>\<open>cb(...)\<close> that ends every path raises a TypeError.  \<open>src\<close> is the source text of
  the library's callback, which is what the validation of \<^verbatim>\<open>queueName\<close> reads.
\<close>

definition without_cb :: "'a outcome \<times> world \<Rightarrow> 'b outcome \<times> world" where
  "without_cb m = (Threw (TypeError ''cb is not a function''), snd m)"

definition createQueues :: "string \<Rightarrow> jsval list \<Rightarrow> world \<Rightarrow> string list outcome \<times> world" where
  "createQueues src names w =
     (if names = [] then (Failed (Error ''no array of queue names provided''), w)
      else async_map (\<lambda>item w1. without_cb (createQueue item (JFun src) w1)) names w)"

definition deleteQueues :: "string \<Rightarrow> jsval list \<Rightarrow> world \<Rightarrow> unit list outcome \<times> world" where
  "deleteQueues src names w =
     (if names = [] then (Failed (Error ''no array of queue names provided''), w)
      else async_map (\<lambda>item w1. without_cb (deleteQueue item (JFun src) w1)) names w)"

section \<open>Subscriptions\<close>

definition sns_listSubscriptionsByTopic :: "jsval \<Rightarrow> world \<Rightarrow> subscription list outcome \<times> world" where
  "sns_listSubscriptionsByTopic topicArn w =
     provider (SnsListSubscriptionsByTopic topicArn) w
       (\<lambda>w1. case string_param ''TopicArn'' topicArn of
                Inl e \<Rightarrow> (Failed e, w1)
              | Inr arn \<Rightarrow>
                  if arn \<in> set (topics w1)
                  then (Ok (filter (\<lambda>sub. TopicArn sub = arn) (subscriptions w1)), w1)
                  else (Failed (Error ''NotFound: Topic does not exist''), w1))"

definition sns_subscribe :: "jsval \<Rightarrow> string \<Rightarrow> world \<Rightarrow> string outcome \<times> world" where
  "sns_subscribe topicArn endpoint w =
     provider (SnsSubscribe topicArn endpoint) w
       (\<lambda>w1. case string_param ''TopicArn'' topicArn of
                Inl e \<Rightarrow> (Failed e, w1)
              | Inr arn \<Rightarrow>
                  if arn \<in> set (topics w1)
                  then let subArn = arn @ '':'' @ show_nat (next_id w1)
                       in (Ok subArn,
                           w1\<lparr>subscriptions := subscriptions w1 @
                                 [\<lparr>SubscriptionArn = subArn, Owner = ''000000000000'',
                                   Protocol = ''sqs'', Endpoint = endpoint, TopicArn = arn\<rparr>],
                               next_id := Suc (next_id w1)\<rparr>)
                  else (Failed (Error ''NotFound: Topic does not exist''), w1))"

definition sns_setSubscriptionAttributes :: "string \<Rightarrow> string option \<Rightarrow> world \<Rightarrow> unit outcome \<times> world" where
  "sns_setSubscriptionAttributes subArn attributeValue w =
     provider (SnsSetSubscriptionAttributes subArn attributeValue) w
       (\<lambda>w1. if subArn \<in> set (map SubscriptionArn (subscriptions w1))
              then (case attributeValue of
                      None \<Rightarrow> (Ok (), w1\<lparr>filters := filter (\<lambda>kv. fst kv \<noteq> subArn) (filters w1)\<rparr>)
                    | Some text \<Rightarrow> (Ok (), w1\<lparr>filters := set_prop subArn text (filters w1)\<rparr>))
              else (Failed (Error ''NotFound: Subscription does not exist''), w1))"

definition getSubscriptionsForTopic :: "jsval \<Rightarrow> world \<Rightarrow> subscription list outcome \<times> world" where
  "getSubscriptionsForTopic topicArn w = sns_listSubscriptionsByTopic topicArn w"

text \<open>
  \<^verbatim>\<open>checkQueueAlreadySubscribed\<close>: the first subscription of the listing whose endpoint is
  the queue ARN (\<^verbatim>\<open>_.find\<close>), or nothing.
\<close>

definition checkQueueAlreadySubscribed ::
  "jsval \<Rightarrow> string \<Rightarrow> world \<Rightarrow> subscription option outcome \<times> world" where
  "checkQueueAlreadySubscribed topicArn queueArn w =
     and_then (getSubscriptionsForTopic topicArn w)
       (\<lambda>subs w1. (Ok (find (\<lambda>sub. queueArn = Endpoint sub) subs), w1))"

text \<open>
  \<^verbatim>\<open>async.parallel\<close> with two tasks: both are started, and the callback receives the first
  error or both results.  The tasks run here one after the other in the order they are
  written.
\<close>

definition parallel2 ::
  "(world \<Rightarrow> 'a outcome \<times> world) \<Rightarrow> (world \<Rightarrow> 'b outcome \<times> world) \<Rightarrow> world
   \<Rightarrow> ('a \<times> 'b) outcome \<times> world" where
  "parallel2 task1 task2 w =
     (case task1 w of
        (Threw e, w1) \<Rightarrow> (Threw e, w1)
      | (Failed e, w1) \<Rightarrow>
          (case task2 w1 of
             (Threw e2, w2) \<Rightarrow> (Threw e2, w2)
           | (Failed e2, w2) \<Rightarrow> (Failed e, w2)
           | (Ok b, w2) \<Rightarrow> (Failed e, w2))
      | (Ok a, w1) \<Rightarrow>
          (case task2 w1 of
             (Threw e2, w2) \<Rightarrow> (Threw e2, w2)
           | (Failed e2, w2) \<Rightarrow> (Failed e2, w2)
           | (Ok b, w2) \<Rightarrow> (Ok (a, b), w2)))"

text \<open>
  The two lookups that open \<^verbatim>\<open>subscribeQueueToTopic\<close> and \<^verbatim>\<open>setFilterForSubscription\<close>: the
  topic ARN through the queue of lookups, and the ARN of the queue, which is qualified by
  the reserved topic name when \<^verbatim>\<open>isMultiTopic\<close> is \<^verbatim>\<open>true\<close>.
\<close>

definition resolve_both :: "jsval \<Rightarrow> bool \<Rightarrow> jsval \<Rightarrow> world \<Rightarrow> (jsval \<times> string) outcome \<times> world" where
  "resolve_both topicName isMultiTopic queueName w =
     parallel2 (queuedGetTopicArn topicName)
       (if isMultiTopic then getQueueArn (JStr MULTIPLE_TOPICS) queueName
        else getQueueArn topicName queueName) w"

text \<open>
  The result of \<^verbatim>\<open>subscribeQueueToTopic\<close> is either the subscription found in the listing or
  the answer of the provider to the new \<^verbatim>\<open>subscribe\<close> request.
\<close>

datatype subscribed = Existing subscription | Created string

definition subscribeQueueToTopic ::
  "jsval \<Rightarrow> bool \<Rightarrow> jsval \<Rightarrow> world \<Rightarrow> subscribed outcome \<times> world" where
  "subscribeQueueToTopic topicName isMultiTopic queueName w =
     (if \<not> isValidTopicName topicName then
        (Failed (Error (''topic name is invalid '' @ to_string topicName)), w)
      else if \<not> isValidQueueName queueName then
        (Failed (Error (''queue name is invalid '' @ to_string queueName)), w)
      else
        and_then (resolve_both topicName isMultiTopic queueName w)
          (\<lambda>results w1.
             and_then (checkQueueAlreadySubscribed (fst results) (snd results) w1)
               (\<lambda>sub w2.
                  case sub of
                    Some existingSub \<Rightarrow> (Ok (Existing existingSub), w2)
                  | None \<Rightarrow>
                      and_then (sns_subscribe (fst results) (snd results) w2)
                        (\<lambda>subArn w3. (Ok (Created subArn), w3)))))"

definition subscribeQueueToTopics :: "jsval list \<Rightarrow> jsval \<Rightarrow> world \<Rightarrow> unit outcome \<times> world" where
  "subscribeQueueToTopics topicNames queueName w =
     async_each (\<lambda>topicName. subscribeQueueToTopic topicName (1 < length topicNames) queueName)
       topicNames w"

definition setFilterForSubscription ::
  "jsval \<Rightarrow> bool \<Rightarrow> jsval \<Rightarrow> jsval \<Rightarrow> world \<Rightarrow> unit outcome \<times> world" where
  "setFilterForSubscription topicName isMultiTopic queueName filter_policy w =
     (if \<not> isValidTopicName topicName then
        (Failed (Error (''topic name is invalid '' @ to_string topicName)), w)
      else if \<not> isValidQueueName queueName then
        (Failed (Error (''queue name is invalid '' @ to_string queueName)), w)
      else
        and_then (resolve_both topicName isMultiTopic queueName w)
          (\<lambda>results w1.
             and_then (checkQueueAlreadySubscribed (fst results) (snd results) w1)
               (\<lambda>sub w2.
                  case sub of
                    None \<Rightarrow> (Ok (), w2)
                  | Some existingSub \<Rightarrow>
                      sns_setSubscriptionAttributes (SubscriptionArn existingSub)
                        (stringify filter_policy) w2)))"

definition setFilterForSubscriptions ::
  "jsval list \<Rightarrow> jsval \<Rightarrow> jsval \<Rightarrow> world \<Rightarrow> unit outcome \<times> world" where
  "setFilterForSubscriptions topicNames queueName filter_policy w =
     async_each (\<lambda>topicName. setFilterForSubscription topicName (1 < length topicNames)
                                queueName filter_policy)
       topicNames w"

record descriptor =
  topicNames :: "jsval list"
  queueName :: jsval
  filter_policy :: jsval

text \<open>\<^verbatim>\<open>createSubscription\<close>: the four steps of its waterfall.\<close>

definition createSubscription :: "descriptor \<Rightarrow> world \<Rightarrow> unit outcome \<times> world" where
  "createSubscription subscription w =
     and_then (createTopics (topicNames subscription) w)
       (\<lambda>results w1.
          and_then (createQueue (getTopicName (topicNames subscription)) (queueName subscription) w1)
            (\<lambda>results w2.
               and_then (subscribeQueueToTopics (topicNames subscription) (queueName subscription) w2)
                 (\<lambda>u w3.
                    if truthy (filter_policy subscription)
                    then setFilterForSubscriptions (topicNames subscription)
                           (queueName subscription) (filter_policy subscription) w3
                    else (Ok (), w3))))"

section \<open>Topic access policy\<close>







section \<open>The queue of lookups\<close>

text \<open>
  \<^verbatim>\<open>arnQueue\<close> is an \<^verbatim>\<open>async.queue\<close> with one worker, which runs \<^verbatim>\<open>getTopicArn\<close> on each task.
  What matters for it is the order in which calls and answers arrive, so the lookups get a
  model of their own: a state with the cache, the tasks that wait in the queue, whether
  the worker is busy, and the lookups in flight, which are those that have asked the
  provider for the list of topics and wait for it.  Each is marked with the way it was
  started.  The events are a call of \<^verbatim>\<open>queuedGetTopicArn\<close> (made by \<^verbatim>\<open>deleteTopic\<close>,
  \<^verbatim>\<open>publishMessageToTopic\<close>, \<^verbatim>\<open>subscribeQueueToTopic\<close> and \<^verbatim>\<open>setFilterForSubscription\<close>), a call
  of \<^verbatim>\<open>getTopicArn\<close> itself (made by the second step of \<^verbatim>\<open>addToTopicPolicy\<close>), and the arrival
  of the listing that a lookup in flight waits for.
\<close>

datatype origin = Queued | Direct

record lookups =
  cache :: "string \<rightharpoonup> string"
  envName :: string
  pending :: "jsval list"
  busy :: bool
  in_flight :: "(origin \<times> jsval) list"

datatype event =
    Call_queuedGetTopicArn jsval
  | Call_getTopicArn jsval
  | Listing_returns nat "string list"

text \<open>
  \<^verbatim>\<open>getTopicArn\<close> calls back before it returns when the name is invalid or the cache has it;
  otherwise it asks for the listing.
\<close>

definition answers_at_once :: "lookups \<Rightarrow> jsval \<Rightarrow> bool" where
  "answers_at_once st topicName =
     (\<not> isValidTopicName topicName \<or> truthy (cache_get (cache st) (to_string topicName)))"

text \<open>The worker takes the tasks in order until one of them has to wait for a listing.\<close>

fun run_queue :: "jsval list \<Rightarrow> lookups \<Rightarrow> lookups" where
  "run_queue [] st = st\<lparr>pending := [], busy := False\<rparr>"
| "run_queue (task # tasks) st =
     (if answers_at_once st task then run_queue tasks st
      else st\<lparr>pending := tasks, busy := True, in_flight := in_flight st @ [(Queued, task)]\<rparr>)"

fun step :: "event \<Rightarrow> lookups \<Rightarrow> lookups" where
  "step (Call_queuedGetTopicArn topicName) st =
     (if busy st then st\<lparr>pending := pending st @ [topicName]\<rparr>
      else run_queue (pending st @ [topicName]) st)"
| "step (Call_getTopicArn topicName) st =
     (if answers_at_once st topicName then st
      else st\<lparr>in_flight := in_flight st @ [(Direct, topicName)]\<rparr>)"
| "step (Listing_returns i arns) st =
     (if i < length (in_flight st) then
        let st1 = st\<lparr>cache := fold (cache_item (envName st)) arns (cache st),
                     in_flight := take i (in_flight st) @ drop (Suc i) (in_flight st)\<rparr>
        in (case fst (in_flight st ! i) of
              Queued \<Rightarrow> run_queue (pending st1) st1
            | Direct \<Rightarrow> st1)
      else st)"

definition fresh_process :: lookups where
  "fresh_process =
     \<lparr>cache = Map.empty, envName = ''dev'', pending = [], busy = False, in_flight = []\<rparr>"

fun through_queue :: "event \<Rightarrow> bool" where
  "through_queue (Call_getTopicArn topicName) = False"
| "through_queue ev = True"

text \<open>
  \<open>serialized st\<close>: the lookups in flight are at most the one the worker of the queue is
  running.
\<close>

definition serialized :: "lookups \<Rightarrow> bool" where
  "serialized st =
     (if busy st then length (in_flight st) = 1 \<and> list_all (\<lambda>l. fst l = Queued) (in_flight st)
      else in_flight st = [])"

section \<open>Runs and example states\<close>

text \<open>
  \<open>traffic_only w w'\<close>: the two states differ at most in the requests recorded and in
  the faults still to come.
\<close>

definition traffic_only :: "world \<Rightarrow> world \<Rightarrow> bool" where
  "traffic_only w w' = (w'\<lparr>calls := [], faults := []\<rparr> = w\<lparr>calls := [], faults := []\<rparr>)"

text \<open>
  \<open>later w w'\<close>: the process has gone from \<open>w\<close> to \<open>w'\<close> by resolving topic names, and by
  anything else that leaves \<^verbatim>\<open>cachedTopicArns\<close> alone.  \<^verbatim>\<open>cacheTopicArns\<close> is the only writer of
  the cache, so the last rule covers every other operation of the module as well as what
  other processes do to the provider in between.
\<close>

inductive later :: "world \<Rightarrow> world \<Rightarrow> bool" where
  later_refl: "later w w"
| later_resolve: "later w w1 \<Longrightarrow> later w (snd (getTopicArn topicName w1))"
| later_other: "later w w1 \<Longrightarrow> cachedTopicArns w2 = cachedTopicArns w1 \<Longrightarrow> later w w2"

text \<open>
  A process of the environment \<^verbatim>\<open>dev\<close>, whose provider lists the one topic \<^verbatim>\<open>dev_x\<close>.
\<close>

definition dev_world :: world where
  "dev_world =
     initial_world\<lparr>env_ENVIRONMENT_NAME := Some ''dev'', topics := [sns_arn ''dev_x'']\<rparr>"

text \<open>
  The same process after it has resolved \<^verbatim>\<open>x\<close>, another environment of the account has
  created its topic \<^verbatim>\<open>predev_x\<close>, and the process has tried to resolve \<^verbatim>\<open>y\<close>.
\<close>

definition dev_world_later :: world where
  "dev_world_later =
     snd (getTopicArn (JStr ''y'')
            ((snd (getTopicArn (JStr ''x'') dev_world))
               \<lparr>topics := [sns_arn ''dev_x'', sns_arn ''predev_x'']\<rparr>))"

text \<open>
  The name under which a queue is registered with the provider, as
  \<^verbatim>\<open>getQualifiedQueueName\<close> builds it from the environment name, the topic name, the service
  name and the queue name.
\<close>

definition qualifiedQueueName :: "string \<Rightarrow> jsval \<Rightarrow> string \<Rightarrow> jsval \<Rightarrow> string" where
  "qualifiedQueueName e t s q = e @ ''_'' @ to_string t @ ''_'' @ s @ ''_'' @ to_string q"

text \<open>
  \<open>lookup_frame w w'\<close>: the two states differ at most in the requests recorded, the faults
  to come, the cached environment name and the cache of topic ARNs, which is all that a
  resolution of a topic ARN touches.
\<close>

definition lookup_frame :: "world \<Rightarrow> world \<Rightarrow> bool" where
  "lookup_frame w w' =
     (w'\<lparr>calls := [], faults := [], environmentName := None, cachedTopicArns := Map.empty\<rparr>
      = w\<lparr>calls := [], faults := [], environmentName := None, cachedTopicArns := Map.empty\<rparr>)"

text \<open>
  A process of the environment \<^verbatim>\<open>dev\<close> after it has created the topic \<^verbatim>\<open>orders\<close> and the queue
  \<^verbatim>\<open>billing\<close> of that topic.
\<close>

definition orders_world :: world where
  "orders_world =
     snd (createQueue (JStr ''orders'') (JStr ''billing'')
            (snd (createTopic (JStr ''orders'') dev_world)))"

text \<open>The names of the queues that a list of requests asks the provider to create.\<close>

fun created_names :: "request list \<Rightarrow> string list" where
  "created_names [] = []"
| "created_names (SqsCreateQueue n attrs # rs) = n # created_names rs"
| "created_names (r # rs) = created_names rs"

text \<open>
  \<open>quiet w w'\<close>: from \<open>w\<close> to \<open>w'\<close> requests were added, none of which creates a queue, and
  an environment name or service name that was resolved in \<open>w\<close> is still the same.
\<close>

definition quiet :: "world \<Rightarrow> world \<Rightarrow> bool" where
  "quiet w w' =
     ((\<exists>cs. calls w' = calls w @ cs \<and> created_names cs = [])
      \<and> (case environmentName w of
            Some e \<Rightarrow> e = [] \<or> environmentName w' = Some e
          | None \<Rightarrow> True)
      \<and> (case serviceName w of
            Some s \<Rightarrow> s = [] \<or> 24 < length s \<or> serviceName w' = Some s
          | None \<Rightarrow> True))"

text \<open>A descriptor with two topics, one queue and no filter.\<close>

definition two_topics :: descriptor where
  "two_topics =
     \<lparr>topicNames = [JStr ''a'', JStr ''b''], queueName = JStr ''q'', filter_policy = JUndefined\<rparr>"




section \<open>Name validation: properties\<close>

lemma re_more_iff: "re_more k s = (length s \<le> k \<and> list_all name_char s)"
  by (induction k s rule: re_more.induct) auto

lemma re_test_iff: "re_test n s = (1 \<le> length s \<and> length s \<le> n \<and> list_all name_char s)"
  by (induction n s rule: re_test.induct) (auto simp: re_more_iff)

text \<open>
  A name that is not a string is tested through its string form, after the check that it is
  not falsy.
\<close>

lemma isValidName_coerced:
  "isValidTopicName v
     = (truthy v \<and> 1 \<le> length (to_string v) \<and> length (to_string v) \<le> 24
        \<and> list_all name_char (to_string v))"
  "isValidQueueName v
     = (truthy v \<and> 1 \<le> length (to_string v) \<and> length (to_string v) \<le> 80
        \<and> list_all name_char (to_string v))"
  by (auto simp: isValidTopicName_def isValidQueueName_def isValidName_def re_test_iff)

text \<open>
  Claim C8.  A string of length 1 to 24 (topic names) or 1 to 80 (queue names) made of the
  characters \<^verbatim>\<open>[A-Za-z0-9_-]\<close> only is accepted by the corresponding validator, and a string
  that is empty, longer than the limit or that holds any other character is rejected; so
  is an absent name (\<^verbatim>\<open>undefined\<close> or \<^verbatim>\<open>null\<close>).
\<close>

theorem name_validators_accept_exactly_valid_names:
  "isValidTopicName (JStr s) = (1 \<le> length s \<and> length s \<le> 24 \<and> list_all name_char s)
   \<and> isValidQueueName (JStr s) = (1 \<le> length s \<and> length s \<le> 80 \<and> list_all name_char s)
   \<and> isValidTopicName JUndefined = False \<and> isValidTopicName JNull = False
   \<and> isValidQueueName JUndefined = False \<and> isValidQueueName JNull = False"
  by (auto simp: isValidTopicName_def isValidQueueName_def isValidName_def re_test_iff)

section \<open>Event attributes: properties\<close>

text \<open>
  Every number is empty for \<^verbatim>\<open>_.isEmpty\<close>, so the first branch of
  \<^verbatim>\<open>convertPropertyToAttribute\<close> takes every number and the \<^verbatim>\<open>Number\<close> branch is never
  reached.
\<close>

lemma convertPropertyToAttribute_number:
  "convertPropertyToAttribute key (JNum n) =
     Some (key, \<lparr>DataType = ''String'', StringValue = ''[value is undefined]''\<rparr>)"
  by (simp add: convertPropertyToAttribute_def)

lemma convertPropertyToAttribute_never_Number:
  "convertPropertyToAttribute key v = Some (k, a) \<Longrightarrow> DataType a = ''String''"
  by (cases v) (auto simp: convertPropertyToAttribute_def ld_isUndefined_def split: if_splits)

text \<open>
  Claim C1, as stated: the event \<^verbatim>\<open>{a: "x", b: 5, c: {nested: 1}, d: undefined}\<close> yields
  exactly the attributes \<^verbatim>\<open>a\<close> (String "x"), \<^verbatim>\<open>b\<close> (Number "5") and \<^verbatim>\<open>d\<close> (String
  "[value is undefined]").  The code returns a different map: it has no entry for \<^verbatim>\<open>d\<close>, and
  \<^verbatim>\<open>b\<close> is not a Number.
\<close>

theorem convertEvent_example_counterexample:
  "map_of (convertEventToMessageAttributes
      [(''a'', JStr ''x''), (''b'', JNum 5), (''c'', JObj [(''nested'', JNum 1)]), (''d'', JUndefined)])
   \<noteq> map_of
      [(''a'', \<lparr>DataType = ''String'', StringValue = ''x''\<rparr>),
       (''b'', \<lparr>DataType = ''Number'', StringValue = ''5''\<rparr>),
       (''d'', \<lparr>DataType = ''String'', StringValue = ''[value is undefined]''\<rparr>)]"
proof
  assume eq: "map_of (convertEventToMessageAttributes
      [(''a'', JStr ''x''), (''b'', JNum 5), (''c'', JObj [(''nested'', JNum 1)]), (''d'', JUndefined)])
   = map_of
      [(''a'', \<lparr>DataType = ''String'', StringValue = ''x''\<rparr>),
       (''b'', \<lparr>DataType = ''Number'', StringValue = ''5''\<rparr>),
       (''d'', \<lparr>DataType = ''String'', StringValue = ''[value is undefined]''\<rparr>)]"
  have "map_of (convertEventToMessageAttributes
      [(''a'', JStr ''x''), (''b'', JNum 5), (''c'', JObj [(''nested'', JNum 1)]), (''d'', JUndefined)]) ''d''
    = None"
    by (simp add: convertEventToMessageAttributes_def convert_step_def
        convertPropertyToAttribute_def ld_isUndefined_def)
  with eq show False by simp
qed

text \<open>
  Claim C1, amended: for that event the result has the attribute \<^verbatim>\<open>a\<close> of type String with
  value "x", and has no entry for the object-valued \<^verbatim>\<open>c\<close> and none for \<^verbatim>\<open>d\<close>, whose value is
  undefined (a top-level undefined value is logged and skipped).
\<close>

theorem convertEvent_example:
  "map_of (convertEventToMessageAttributes
      [(''a'', JStr ''x''), (''b'', JNum 5), (''c'', JObj [(''nested'', JNum 1)]), (''d'', JUndefined)]) ''a''
     = Some \<lparr>DataType = ''String'', StringValue = ''x''\<rparr>
   \<and> map_of (convertEventToMessageAttributes
      [(''a'', JStr ''x''), (''b'', JNum 5), (''c'', JObj [(''nested'', JNum 1)]), (''d'', JUndefined)]) ''c''
     = None
   \<and> map_of (convertEventToMessageAttributes
      [(''a'', JStr ''x''), (''b'', JNum 5), (''c'', JObj [(''nested'', JNum 1)]), (''d'', JUndefined)]) ''d''
     = None"
  by (simp add: convertEventToMessageAttributes_def convert_step_def
      convertPropertyToAttribute_def ld_isUndefined_def)

section \<open>Identity resolution: properties\<close>

lemma getServiceName_length: "length (fst (getServiceName w)) \<le> 24"
  by (simp add: getServiceName_def Let_def)

lemma getServiceName_long:
  "serviceName w = None \<Longrightarrow> env_SERVICE_NAME w = Some s \<Longrightarrow> 24 < length s
   \<Longrightarrow> fst (getServiceName w) = take 23 s"
  by (auto simp: getServiceName_def Let_def nonempty_def)

lemma getEnvironmentName_long_host:
  "environmentName w = None \<Longrightarrow> env_ENVIRONMENT_NAME w = None
   \<Longrightarrow> voyent_config_host w = Inr (Some host) \<Longrightarrow> index_of ''.'' host = None
   \<Longrightarrow> 12 < length host
   \<Longrightarrow> fst (getEnvironmentName w) = Ok (take 11 host)"
  by (auto simp: getEnvironmentName_def Let_def nonempty_def)

text \<open>
  Claim C7 says that an over-long name is cut to 12 characters (environment) and to 24
  characters (service).  The code cuts with \<^verbatim>\<open>substring(0, 11)\<close> and \<^verbatim>\<open>substring(0, 23)\<close>: a
  host label of 13 characters gives an environment name of 11 characters, and a
  \<^verbatim>\<open>SERVICE_NAME\<close> of 25 characters gives a service name of 23 characters.  An unset
  \<^verbatim>\<open>SERVICE_NAME\<close> gives the placeholder.
\<close>

theorem identity_truncation_off_by_one:
  "fst (getEnvironmentName
          (initial_world\<lparr>voyent_config_host := Inr (Some ''abcdefghijklm.voyent.cloud'')\<rparr>))
     = Ok ''abcdefghijk''
   \<and> fst (getServiceName
          (initial_world\<lparr>env_SERVICE_NAME := Some ''abcdefghijklmnopqrstuvwxy''\<rparr>))
     = ''abcdefghijklmnopqrstuvw''
   \<and> fst (getServiceName initial_world) = ''SERVICE_NAME_UNKNOWN''"
  by (simp add: getEnvironmentName_def getServiceName_def initial_world_def nonempty_def Let_def)

section \<open>Frames\<close>

lemma traffic_only_refl [simp]: "traffic_only w w"
  by (simp add: traffic_only_def)

lemma traffic_only_trans: "traffic_only w w1 \<Longrightarrow> traffic_only w1 w2 \<Longrightarrow> traffic_only w w2"
  by (simp add: traffic_only_def)

lemma traffic_only_fields:
  assumes "traffic_only w w'"
  shows "cachedTopicArns w' = cachedTopicArns w" "environmentName w' = environmentName w"
    "serviceName w' = serviceName w" "topics w' = topics w" "queues w' = queues w"
    "subscriptions w' = subscriptions w" "policies w' = policies w"
    "env_ENVIRONMENT_NAME w' = env_ENVIRONMENT_NAME w" "env_SERVICE_NAME w' = env_SERVICE_NAME w"
    "voyent_config_host w' = voyent_config_host w" "page_extra w' = page_extra w"
    "filters w' = filters w" "next_id w' = next_id w"
    "env_topicAccountPermissions w' = env_topicAccountPermissions w"
proof -
  from assms have e: "w'\<lparr>calls := [], faults := []\<rparr> = w\<lparr>calls := [], faults := []\<rparr>"
    by (simp add: traffic_only_def)
  show "cachedTopicArns w' = cachedTopicArns w" using arg_cong[OF e, of cachedTopicArns] by simp
  show "environmentName w' = environmentName w" using arg_cong[OF e, of environmentName] by simp
  show "serviceName w' = serviceName w" using arg_cong[OF e, of serviceName] by simp
  show "topics w' = topics w" using arg_cong[OF e, of topics] by simp
  show "queues w' = queues w" using arg_cong[OF e, of queues] by simp
  show "subscriptions w' = subscriptions w" using arg_cong[OF e, of subscriptions] by simp
  show "policies w' = policies w" using arg_cong[OF e, of policies] by simp
  show "env_ENVIRONMENT_NAME w' = env_ENVIRONMENT_NAME w" using arg_cong[OF e, of env_ENVIRONMENT_NAME] by simp
  show "env_SERVICE_NAME w' = env_SERVICE_NAME w" using arg_cong[OF e, of env_SERVICE_NAME] by simp
  show "voyent_config_host w' = voyent_config_host w" using arg_cong[OF e, of voyent_config_host] by simp
  show "page_extra w' = page_extra w" using arg_cong[OF e, of page_extra] by simp
  show "filters w' = filters w" using arg_cong[OF e, of filters] by simp
  show "next_id w' = next_id w" using arg_cong[OF e, of next_id] by simp
  show "env_topicAccountPermissions w' = env_topicAccountPermissions w" using arg_cong[OF e, of env_topicAccountPermissions] by simp
qed

lemma sns_listTopics_frame:
  "sns_listTopics t w = (r, w') \<Longrightarrow> traffic_only w w'"
  by (auto simp: sns_listTopics_def provider_def Let_def traffic_only_def split: list.splits option.splits)

lemma getAllTopics_loop_frame:
  "getAllTopics_loop t acc w = (r, w') \<Longrightarrow> traffic_only w w'"
proof (induction t acc w arbitrary: r w' rule: getAllTopics_loop.induct)
  case (1 nextToken allTopics w)
  obtain r1 w1 where l: "sns_listTopics nextToken w = (r1, w1)" by (cases "sns_listTopics nextToken w")
  then have w1: "traffic_only w w1"
    using sns_listTopics_frame by blast
  show ?case
  proof (cases r1)
    case (Ok pg)
    obtain page nxt where pg: "pg = (page, nxt)" by (cases pg)
    show ?thesis
    proof (cases nxt)
      case None
      with 1(2) l Ok pg w1 show ?thesis
        by (auto simp: getAllTopics_loop.simps[of nextToken allTopics w])
    next
      case (Some tok)
      with 1(2) l Ok pg have "getAllTopics_loop (Some tok) (allTopics @ page) w1 = (r, w')"
        by (simp add: getAllTopics_loop.simps[of nextToken allTopics w])
      from 1(1)[OF l[symmetric] Ok pg[symmetric] Some this] have "traffic_only w1 w'" .
      with w1 show ?thesis by (rule traffic_only_trans)
    qed
  next
    case (Failed e)
    with 1(2) l w1 show ?thesis
      by (auto simp: getAllTopics_loop.simps[of nextToken allTopics w])
  next
    case (Threw e)
    with 1(2) l w1 show ?thesis
      by (auto simp: getAllTopics_loop.simps[of nextToken allTopics w])
  qed
qed


lemma and_then_Ok:
  "and_then m f = (Ok v, w') \<longleftrightarrow> (\<exists>u w1. m = (Ok u, w1) \<and> f u w1 = (Ok v, w'))"
  by (cases m; cases "fst m") (auto simp: and_then_def)

lemma and_then_cases:
  assumes "and_then m f = (r, w')"
  obtains (ok) u w1 where "m = (Ok u, w1)" "f u w1 = (r, w')"
    | (failed) e where "m = (Failed e, w')" "r = Failed e"
    | (threw) e where "m = (Threw e, w')" "r = Threw e"
  using assms by (cases m; cases "fst m") (auto simp: and_then_def)

lemma getEnvironmentName_frame:
  "getEnvironmentName w = (r, w') \<Longrightarrow> w'\<lparr>environmentName := None\<rparr> = w\<lparr>environmentName := None\<rparr>"
  by (auto simp: getEnvironmentName_def Let_def split: option.splits sum.splits)

lemma getEnvironmentName_cache:
  assumes "getEnvironmentName w = (r, w')"
  shows "cachedTopicArns w' = cachedTopicArns w"
  using arg_cong[OF getEnvironmentName_frame[OF assms], where f = cachedTopicArns] by simp

lemma index_of_nonempty: "index_of pat s = Some i \<Longrightarrow> pat \<noteq> [] \<Longrightarrow> s \<noteq> []"
  by (cases s) (auto split: if_splits)

lemma cache_item_truthy:
  "truthy (cache_get c k) \<Longrightarrow> truthy (cache_get (cache_item e arn c) k)"
  by (auto simp: cache_item_def cache_get_def cache_set_def Let_def
      split: option.splits if_splits dest: index_of_nonempty)

lemma fold_cache_item_truthy:
  "truthy (cache_get c k) \<Longrightarrow> truthy (cache_get (fold (cache_item e) arns c) k)"
  by (induction arns arbitrary: c) (auto simp: cache_item_truthy)

lemma cacheTopicArns_truthy:
  assumes "cacheTopicArns w = (r, w')" "truthy (cache_get (cachedTopicArns w) k)"
  shows "truthy (cache_get (cachedTopicArns w') k)"
proof -
  from assms(1) show ?thesis unfolding cacheTopicArns_def
  proof (cases rule: and_then_cases)
    case (ok allTopics w1)
    from ok(1) have c1: "cachedTopicArns w1 = cachedTopicArns w"
      by (auto simp: getAllTopics_def dest!: getAllTopics_loop_frame traffic_only_fields(1))
    from ok(2) show ?thesis
    proof (cases rule: and_then_cases)
      case (ok envName w2)
      with c1 assms(2) show ?thesis
        by (auto dest!: getEnvironmentName_cache simp: fold_cache_item_truthy)
    next
      case (failed e)
      with c1 assms(2) show ?thesis by (auto dest!: getEnvironmentName_cache)
    next
      case (threw e)
      with c1 assms(2) show ?thesis by (auto dest!: getEnvironmentName_cache)
    qed
  next
    case (failed e)
    with assms(2) show ?thesis
      by (auto simp: getAllTopics_def dest!: getAllTopics_loop_frame traffic_only_fields(1))
  next
    case (threw e)
    with assms(2) show ?thesis
      by (auto simp: getAllTopics_def dest!: getAllTopics_loop_frame traffic_only_fields(1))
  qed
qed

lemma getTopicArn_truthy:
  assumes "truthy (cache_get (cachedTopicArns w) k)"
  shows "truthy (cache_get (cachedTopicArns (snd (getTopicArn y w))) k)"
proof -
  obtain r w' where g: "getTopicArn y w = (r, w')" by (cases "getTopicArn y w")
  have "truthy (cache_get (cachedTopicArns w') k)"
  proof (cases "isValidTopicName y \<and> \<not> truthy (cache_get (cachedTopicArns w) (to_string y))")
    case False
    with g assms show ?thesis by (auto simp: getTopicArn_def split: if_splits)
  next
    case True
    with g have "and_then (cacheTopicArns w)
             (\<lambda>u w1.
                let topicArn = cache_get (cachedTopicArns w1) (to_string y)
                in if \<not> truthy topicArn then
                     (Failed (Error (''cannot get ARN for '' @ to_string y)), w1)
                   else (Ok topicArn, w1)) = (r, w')"
      by (simp add: getTopicArn_def)
    then show ?thesis
    proof (cases rule: and_then_cases)
      case (ok u w1)
      then have "w' = w1" by (auto simp: Let_def split: if_splits)
      with ok(1) assms show ?thesis by (auto dest: cacheTopicArns_truthy)
    next
      case (failed e)
      with assms show ?thesis by (auto dest: cacheTopicArns_truthy)
    next
      case (threw e)
      with assms show ?thesis by (auto dest: cacheTopicArns_truthy)
    qed
  qed
  with g show ?thesis by simp
qed

lemma getTopicArn_hit:
  "isValidTopicName x \<Longrightarrow> truthy (cache_get (cachedTopicArns w) (to_string x))
   \<Longrightarrow> getTopicArn x w = (Ok (cache_get (cachedTopicArns w) (to_string x)), w)"
  by (simp add: getTopicArn_def)

lemma getTopicArn_Ok:
  assumes "getTopicArn x w = (Ok a, w')"
  shows "isValidTopicName x \<and> a = cache_get (cachedTopicArns w') (to_string x) \<and> truthy a"
proof (cases "isValidTopicName x \<and> \<not> truthy (cache_get (cachedTopicArns w) (to_string x))")
  case False
  with assms show ?thesis by (auto simp: getTopicArn_def split: if_splits)
next
  case True
  with assms obtain u w1 where "cacheTopicArns w = (Ok u, w1)"
     and "(let topicArn = cache_get (cachedTopicArns w1) (to_string x)
                in if \<not> truthy topicArn then
                     (Failed (Error (''cannot get ARN for '' @ to_string x)), w1)
                   else (Ok topicArn, w1)) = (Ok a, w')"
    by (auto simp: getTopicArn_def and_then_Ok)
  with True show ?thesis by (auto simp: Let_def split: if_splits)
qed


section \<open>The ARN cache: properties\<close>

lemma later_truthy:
  "later w w' \<Longrightarrow> truthy (cache_get (cachedTopicArns w) k)
   \<Longrightarrow> truthy (cache_get (cachedTopicArns w') k)"
  by (induction rule: later.induct) (auto simp: getTopicArn_truthy)

lemma cache_get_own_entry:
  "cachedTopicArns w2 k = cachedTopicArns w1 k
   \<Longrightarrow> cache_get (cachedTopicArns w2) k = cache_get (cachedTopicArns w1) k"
  by (simp add: cache_get_def)

text \<open>
  Claim C2, as stated: once \<^verbatim>\<open>x\<close> has been resolved, every later resolution of \<^verbatim>\<open>x\<close> returns
  the same ARN, whatever other names are resolved in between.  In the run below the process
  resolves \<^verbatim>\<open>x\<close>, then \<^verbatim>\<open>y\<close>, then \<^verbatim>\<open>x\<close> again.  The miss on \<^verbatim>\<open>y\<close> lists the topics again;
  the listing now holds \<^verbatim>\<open>predev_x\<close>, whose ARN contains \<^verbatim>\<open>dev_\<close> as well, and the entry of \<^verbatim>\<open>x\<close>
  is overwritten.
\<close>

theorem cached_arn_replaced_counterexample:
  "fst (getTopicArn (JStr ''x'') dev_world)
     = Ok (JStr ''arn:aws:sns:us-east-1:000000000000:dev_x'')
   \<and> fst (getTopicArn (JStr ''x'') dev_world_later)
     = Ok (JStr ''arn:aws:sns:us-east-1:000000000000:predev_x'')"
  unfolding dev_world_later_def by code_simp

text \<open>
  Claim C2, amended: once \<^verbatim>\<open>getTopicArn(x)\<close> has succeeded, every later resolution of \<^verbatim>\<open>x\<close> in
  the process succeeds without any request to the provider (the state, and with it the
  list of requests, is unchanged) and returns the ARN that the cache holds for \<^verbatim>\<open>x\<close> at that
  time.  The entry is never removed; a refresh caused by a miss on another name overwrites
  it with what the new listing gives for \<^verbatim>\<open>x\<close>.
\<close>

theorem resolved_topic_stays_cached:
  assumes "getTopicArn x w = (Ok a, w1)" and "later w1 w2"
  shows "getTopicArn x w2 = (Ok (cache_get (cachedTopicArns w2) (to_string x)), w2)
         \<and> calls (snd (getTopicArn x w2)) = calls w2"
proof -
  from assms(1) have v: "isValidTopicName x"
    and t: "truthy (cache_get (cachedTopicArns w1) (to_string x))"
    using getTopicArn_Ok by blast+
  from later_truthy[OF assms(2) t] v
  have "getTopicArn x w2 = (Ok (cache_get (cachedTopicArns w2) (to_string x)), w2)"
    by (rule getTopicArn_hit[rotated])
  then show ?thesis by simp
qed

theorem resolved_topic_stays_cached_witness:
  "getTopicArn (JStr ''x'') dev_world_later
     = (Ok (cache_get (cachedTopicArns dev_world_later) ''x''), dev_world_later)
   \<and> calls (snd (getTopicArn (JStr ''x'') dev_world_later)) = calls dev_world_later"
proof -
  have r: "fst (getTopicArn (JStr ''x'') dev_world)
      = Ok (JStr ''arn:aws:sns:us-east-1:000000000000:dev_x'')"
    by code_simp
  have h1: "getTopicArn (JStr ''x'') dev_world
      = (Ok (JStr ''arn:aws:sns:us-east-1:000000000000:dev_x''), snd (getTopicArn (JStr ''x'') dev_world))"
    using r by (simp add: prod_eq_iff)
  have h2: "later (snd (getTopicArn (JStr ''x'') dev_world)) dev_world_later"
    unfolding dev_world_later_def
    by (rule later_resolve, rule later_other, rule later_refl) simp
  from resolved_topic_stays_cached[OF h1 h2] show ?thesis by simp
qed

lemma resolved_topic_same_arn:
  assumes "getTopicArn x w = (Ok a, w1)" and "later w1 w2"
    and "cachedTopicArns w2 (to_string x) = cachedTopicArns w1 (to_string x)"
  shows "getTopicArn x w2 = (Ok a, w2)"
proof -
  from assms(1) have v: "isValidTopicName x"
    and t: "truthy (cache_get (cachedTopicArns w1) (to_string x))"
    and a: "a = cache_get (cachedTopicArns w1) (to_string x)"
    using getTopicArn_Ok by blast+
  from later_truthy[OF assms(2) t] v
  have "getTopicArn x w2 = (Ok (cache_get (cachedTopicArns w2) (to_string x)), w2)"
    by (rule getTopicArn_hit[rotated])
  with a cache_get_own_entry[OF assms(3)] show ?thesis by simp
qed

section \<open>Deleting a topic: properties\<close>

lemma sns_deleteTopic_calls:
  "calls (snd (sns_deleteTopic a w)) = calls w @ [SnsDeleteTopic a]"
  by (auto simp: sns_deleteTopic_def provider_def Let_def split: list.splits option.splits sum.splits)

text \<open>
  Claim C10.  When the resolution of the topic ARN inside \<^verbatim>\<open>deleteTopic\<close> fails, the error is
  not handed to the caller: the delete request is sent with an undefined \<^verbatim>\<open>TopicArn\<close>, and
  what the caller receives is the provider's answer to that request.
\<close>

theorem deleteTopic_ignores_resolution_failure:
  assumes "isValidTopicName t" and "queuedGetTopicArn t w = (Failed e, w1)"
  shows "deleteTopic t w = sns_deleteTopic JUndefined w1
         \<and> calls (snd (deleteTopic t w)) = calls w1 @ [SnsDeleteTopic JUndefined]"
  using assms by (simp add: deleteTopic_def sns_deleteTopic_calls)

theorem deleteTopic_ignores_resolution_failure_witness:
  "deleteTopic (JStr ''orders'') dev_world
     = sns_deleteTopic JUndefined (snd (queuedGetTopicArn (JStr ''orders'') dev_world))
   \<and> calls (snd (deleteTopic (JStr ''orders'') dev_world))
     = [SnsListTopics None, SnsDeleteTopic JUndefined]
   \<and> fst (queuedGetTopicArn (JStr ''orders'') dev_world) = Failed (Error ''cannot get ARN for orders'')
   \<and> fst (deleteTopic (JStr ''orders'') dev_world)
     = Failed (Error ''MissingRequiredParameter: Missing required key TopicArn in params'')"
proof -
  have v: "isValidTopicName (JStr ''orders'')"
    by code_simp
  have r: "fst (queuedGetTopicArn (JStr ''orders'') dev_world) = Failed (Error ''cannot get ARN for orders'')"
    by code_simp
  have h: "queuedGetTopicArn (JStr ''orders'') dev_world
      = (Failed (Error ''cannot get ARN for orders''), snd (queuedGetTopicArn (JStr ''orders'') dev_world))"
    using r by (simp add: prod_eq_iff)
  have c: "calls (snd (queuedGetTopicArn (JStr ''orders'') dev_world)) = [SnsListTopics None]"
    by code_simp
  have f: "fst (sns_deleteTopic JUndefined (snd (queuedGetTopicArn (JStr ''orders'') dev_world)))
      = Failed (Error ''MissingRequiredParameter: Missing required key TopicArn in params'')"
    by code_simp
  note d = deleteTopic_ignores_resolution_failure[OF v h]
  from d have d1: "deleteTopic (JStr ''orders'') dev_world
      = sns_deleteTopic JUndefined (snd (queuedGetTopicArn (JStr ''orders'') dev_world))"
    by (rule conjunct1)
  from d have "calls (snd (deleteTopic (JStr ''orders'') dev_world))
      = calls (snd (queuedGetTopicArn (JStr ''orders'') dev_world)) @ [SnsDeleteTopic JUndefined]"
    by (rule conjunct2)
  with c have d2: "calls (snd (deleteTopic (JStr ''orders'') dev_world))
      = [SnsListTopics None, SnsDeleteTopic JUndefined]"
    by simp
  from d1 f have d3: "fst (deleteTopic (JStr ''orders'') dev_world)
      = Failed (Error ''MissingRequiredParameter: Missing required key TopicArn in params'')"
    by (simp only:)
  from d1 d2 r d3 show ?thesis by (intro conjI)
qed

section \<open>Names and queue ARNs: what a success tells, and how it repeats\<close>

lemma getEnvironmentName_Ok:
  "getEnvironmentName w = (Ok e, w') \<Longrightarrow> e \<noteq> [] \<and> w' = w\<lparr>environmentName := Some e\<rparr>"
  by (auto simp: getEnvironmentName_def Let_def nonempty_def split: option.splits sum.splits if_splits)

lemma getEnvironmentName_cached:
  "environmentName w = Some e \<Longrightarrow> e \<noteq> [] \<Longrightarrow> getEnvironmentName w = (Ok e, w)"
  by (simp add: getEnvironmentName_def nonempty_def)

lemma getServiceName_result:
  "getServiceName w = (s, w') \<Longrightarrow> s \<noteq> [] \<and> length s \<le> 24 \<and> w' = w\<lparr>serviceName := Some s\<rparr>"
  by (auto simp: getServiceName_def Let_def nonempty_def split: option.splits if_splits)

lemma getServiceName_cached:
  "serviceName w = Some s \<Longrightarrow> s \<noteq> [] \<Longrightarrow> length s \<le> 24 \<Longrightarrow> getServiceName w = (s, w)"
  by (simp add: getServiceName_def nonempty_def Let_def)

lemma getQualifiedTopicName_Ok:
  assumes "getQualifiedTopicName t w = (Ok n, w')"
  shows "\<exists>e. n = e @ ''_'' @ to_string t \<and> e \<noteq> [] \<and> isValidTopicName t
            \<and> w' = w\<lparr>environmentName := Some e\<rparr>"
proof -
  from assms have v: "isValidTopicName t"
    by (auto simp: getQualifiedTopicName_def split: if_splits)
  with assms obtain e w1 where e: "getEnvironmentName w = (Ok e, w1)"
    and r: "(Ok (e @ ''_'' @ to_string t), w1) = (Ok n, w')"
    by (auto simp: getQualifiedTopicName_def and_then_Ok)
  from getEnvironmentName_Ok[OF e] r v show ?thesis by auto
qed

lemma getQualifiedQueueName_Ok:
  assumes "getQualifiedQueueName t q w = (Ok n, w')"
  shows "\<exists>e s. n = qualifiedQueueName e t s q
           \<and> e \<noteq> [] \<and> s \<noteq> [] \<and> length s \<le> 24
           \<and> isValidTopicName t \<and> isValidQueueName q
           \<and> w' = w\<lparr>environmentName := Some e, serviceName := Some s\<rparr>"
proof -
  from assms have v: "isValidTopicName t" "isValidQueueName q"
    by (auto simp: getQualifiedQueueName_def split: if_splits)
  with assms obtain tn w1 where tn: "getQualifiedTopicName t w = (Ok tn, w1)"
    and r: "(let (sName, w2) = getServiceName w1
                in (Ok (tn @ ''_'' @ sName @ ''_'' @ to_string q), w2)) = (Ok n, w')"
    by (auto simp: getQualifiedQueueName_def and_then_Ok)
  obtain s w2 where s: "getServiceName w1 = (s, w2)" by (cases "getServiceName w1")
  from getQualifiedTopicName_Ok[OF tn] obtain e where e: "tn = e @ ''_'' @ to_string t" "e \<noteq> []"
    "w1 = w\<lparr>environmentName := Some e\<rparr>" by blast
  from getServiceName_result[OF s] r s e v show ?thesis
    by (auto simp: qualifiedQueueName_def)
qed

lemma getQualifiedQueueName_cached:
  assumes "environmentName w = Some e" "e \<noteq> []" "serviceName w = Some s" "s \<noteq> []" "length s \<le> 24"
    "isValidTopicName t" "isValidQueueName q"
  shows "getQualifiedQueueName t q w = (Ok (qualifiedQueueName e t s q), w)"
  using assms
  by (simp add: getQualifiedQueueName_def getQualifiedTopicName_def and_then_def
      getEnvironmentName_cached getServiceName_cached qualifiedQueueName_def)

lemma provider_Ok:
  "provider req w respond = (Ok v, w') \<Longrightarrow>
     respond (w\<lparr>calls := calls w @ [req], faults := drop 1 (faults w)\<rparr>) = (Ok v, w')"
  by (auto simp: provider_def Let_def split: list.splits option.splits)










lemma lookup_frame_refl [simp]: "lookup_frame w w"
  by (simp add: lookup_frame_def)



















section \<open>Subscribing twice\<close>



section \<open>Which requests create a queue\<close>

lemma created_names_append [simp]: "created_names (xs @ ys) = created_names xs @ created_names ys"
  by (induction xs rule: created_names.induct) auto

lemma quiet_refl [simp]: "quiet w w"
  by (auto simp: quiet_def split: option.splits)

lemma quiet_trans: "quiet w w1 \<Longrightarrow> quiet w1 w2 \<Longrightarrow> quiet w w2"
  by (auto simp: quiet_def split: option.splits)

lemma quiet_and_then:
  assumes "quiet w (snd m)" and "\<And>v w1. quiet w1 (snd (f v w1))"
  shows "quiet w (snd (and_then m f))"
proof (cases m)
  case (Pair r w1)
  show ?thesis
  proof (cases r)
    case (Ok v)
    with Pair assms(1) assms(2)[of w1 v] show ?thesis
      by (auto simp: and_then_def intro: quiet_trans)
  qed (use Pair assms(1) in \<open>auto simp: and_then_def\<close>)
qed

lemma quiet_provider:
  assumes "created_names [req] = []" and "\<And>w1. quiet w1 (snd (respond w1))"
  shows "quiet w (snd (provider req w respond))"
proof -
  let ?w1 = "w\<lparr>calls := calls w @ [req], faults := drop 1 (faults w)\<rparr>"
  have q1: "quiet w ?w1" using assms(1) by (auto simp: quiet_def split: option.splits)
  have "snd (provider req w respond) = ?w1 \<or> snd (provider req w respond) = snd (respond ?w1)"
    by (auto simp: provider_def Let_def split: list.splits option.splits)
  with q1 assms(2)[of ?w1] show ?thesis by (auto intro: quiet_trans)
qed

lemma quiet_getEnvironmentName: "quiet w (snd (getEnvironmentName w))"
  by (auto simp: getEnvironmentName_def Let_def quiet_def nonempty_def split: option.splits sum.splits)

lemma quiet_getServiceName: "quiet w (snd (getServiceName w))"
  by (auto simp: getServiceName_def Let_def quiet_def nonempty_def split: option.splits)

lemma quiet_getServiceName': "getServiceName w = (s, w') \<Longrightarrow> quiet w w'"
  using quiet_getServiceName[of w] by simp

lemma quiet_getQualifiedTopicName: "quiet w (snd (getQualifiedTopicName t w))"
  unfolding getQualifiedTopicName_def
  by (simp add: quiet_and_then quiet_getEnvironmentName)

lemma quiet_getQualifiedQueueName: "quiet w (snd (getQualifiedQueueName t q w))"
  unfolding getQualifiedQueueName_def
  by (simp add: split_def Let_def quiet_and_then quiet_getQualifiedTopicName quiet_getServiceName)

lemma quiet_sns_listTopics: "quiet w (snd (sns_listTopics tok w))"
  unfolding sns_listTopics_def by (simp add: quiet_provider Let_def)

lemma quiet_getAllTopics_loop: "quiet w (snd (getAllTopics_loop tok acc w))"
proof (induction tok acc w rule: getAllTopics_loop.induct)
  case (1 nextToken allTopics w)
  obtain r1 w1 where l: "sns_listTopics nextToken w = (r1, w1)" by (cases "sns_listTopics nextToken w")
  then have q1: "quiet w w1" using quiet_sns_listTopics[of w nextToken] by simp
  show ?case
  proof (cases r1)
    case (Ok pg)
    obtain page nxt where pg: "pg = (page, nxt)" by (cases pg)
    show ?thesis
    proof (cases nxt)
      case None
      with l Ok pg q1 show ?thesis
        by (simp add: getAllTopics_loop.simps[of nextToken allTopics w])
    next
      case (Some tok)
      from 1[OF l[symmetric] Ok pg[symmetric] Some] q1 l Ok pg Some show ?thesis
        by (auto simp: getAllTopics_loop.simps[of nextToken allTopics w] intro: quiet_trans)
    qed
  qed (use l q1 in \<open>simp_all add: getAllTopics_loop.simps[of nextToken allTopics w]\<close>)
qed

lemma quiet_cacheTopicArns: "quiet w (snd (cacheTopicArns w))"
  unfolding cacheTopicArns_def getAllTopics_def
proof (rule quiet_and_then[OF quiet_getAllTopics_loop], rule quiet_and_then[OF quiet_getEnvironmentName])
  fix v w1 va w1a
  show "quiet w1a (snd (Ok (), w1a\<lparr>cachedTopicArns := fold (cache_item va) v (cachedTopicArns w1a)\<rparr>))"
    by (auto simp: quiet_def split: option.splits)
qed

lemma quiet_getTopicArn: "quiet w (snd (getTopicArn t w))"
  unfolding getTopicArn_def
  by (simp add: quiet_and_then quiet_cacheTopicArns Let_def)

lemma quiet_queuedGetTopicArn: "quiet w (snd (queuedGetTopicArn t w))"
  by (simp add: queuedGetTopicArn_def quiet_getTopicArn)

lemma quiet_store_update:
  "quiet w (w\<lparr>topics := a, policies := b\<rparr>)" "quiet w (w\<lparr>subscriptions := c, next_id := d\<rparr>)"
  "quiet w (w\<lparr>filters := f\<rparr>)" "quiet w (w\<lparr>queues := g\<rparr>)"
  by (auto simp: quiet_def split: option.splits)

lemma quiet_sns_createTopic: "quiet w (snd (sns_createTopic n w))"
  unfolding sns_createTopic_def by (rule quiet_provider) (simp_all add: Let_def quiet_store_update)

lemma quiet_sns_addPermission: "quiet w (snd (sns_addPermission a t w))"
  unfolding sns_addPermission_def by (rule quiet_provider) (simp_all split: sum.splits)

lemma quiet_createTopic: "quiet w (snd (createTopic t w))"
proof -
  have "\<And>v w1 va w1a. quiet w1a
          (snd (case getPublishPermissionParams t va w1a of Inl e \<Rightarrow> (Threw e, w1a)
                | Inr None \<Rightarrow> (Ok (), w1a)
                | Inr (Some (account, arn)) \<Rightarrow>
                    case sns_addPermission account (JStr arn) w1a of
                    (Threw e, w3) \<Rightarrow> (Threw e, w3)
                    | (Failed permissionErr, w3) \<Rightarrow> (Ok (), w3)
                    | (Ok u, w3) \<Rightarrow> (Ok (), w3)))"
  proof -
    fix va w1a
    show "quiet w1a
          (snd (case getPublishPermissionParams t va w1a of Inl e \<Rightarrow> (Threw e, w1a)
                | Inr None \<Rightarrow> (Ok (), w1a)
                | Inr (Some (account, arn)) \<Rightarrow>
                    case sns_addPermission account (JStr arn) w1a of
                    (Threw e, w3) \<Rightarrow> (Threw e, w3)
                    | (Failed permissionErr, w3) \<Rightarrow> (Ok (), w3)
                    | (Ok u, w3) \<Rightarrow> (Ok (), w3)))"
    proof (cases "getPublishPermissionParams t va w1a")
      case (Inl e)
      then show ?thesis by simp
    next
      case (Inr po)
      show ?thesis
      proof (cases po)
        case None
        with Inr show ?thesis by simp
      next
        case (Some p)
        obtain account arn where p: "p = (account, arn)" by (cases p)
        obtain r3 w3 where a: "sns_addPermission account (JStr arn) w1a = (r3, w3)"
          by (cases "sns_addPermission account (JStr arn) w1a")
        with quiet_sns_addPermission[of w1a account "JStr arn"] have "quiet w1a w3" by simp
        with Inr Some p a show ?thesis by (cases r3) simp_all
      qed
    qed
  qed
  then show ?thesis
    unfolding createTopic_def
    by (simp add: quiet_and_then quiet_getQualifiedTopicName quiet_sns_createTopic)
qed

lemma quiet_async_map:
  assumes "\<And>x w. quiet w (snd (f x w))"
  shows "quiet w (snd (async_map f xs w))"
proof (induction xs arbitrary: w)
  case Nil
  show ?case by simp
next
  case (Cons x xs)
  obtain r1 w1 where f: "f x w = (r1, w1)" by (cases "f x w")
  with assms[of w x] have q1: "quiet w w1" by simp
  obtain r2 w2 where m: "async_map f xs w1 = (r2, w2)" by (cases "async_map f xs w1")
  with Cons[of w1] have q2: "quiet w1 w2" by simp
  from quiet_trans[OF q1 q2] f m q1 show ?case
    by (cases r1; cases r2) simp_all
qed

lemma quiet_async_each:
  assumes "\<And>x w. quiet w (snd (f x w))"
  shows "quiet w (snd (async_each f xs w))"
  unfolding async_each_def by (rule quiet_and_then) (simp_all add: quiet_async_map assms)

lemma quiet_createTopics: "quiet w (snd (createTopics names w))"
  by (simp add: createTopics_def quiet_async_map quiet_createTopic)


lemma quiet_sqs_getQueueUrl: "quiet w (snd (sqs_getQueueUrl n w))"
  unfolding sqs_getQueueUrl_def by (rule quiet_provider) (simp_all split: option.splits)

lemma quiet_sqs_getQueueAttributes: "quiet w (snd (sqs_getQueueAttributes u w))"
  unfolding sqs_getQueueAttributes_def by (rule quiet_provider) (simp_all split: option.splits)

lemma quiet_sqs_setQueueAttributes: "quiet w (snd (sqs_setQueueAttributes u attrs w))"
  unfolding sqs_setQueueAttributes_def
  by (rule quiet_provider) (simp_all add: quiet_store_update split: option.splits)

lemma quiet_getQueueUrl: "quiet w (snd (getQueueUrl t q w))"
  unfolding getQueueUrl_def
  by (simp add: quiet_and_then quiet_getQualifiedQueueName quiet_sqs_getQueueUrl)

lemma quiet_getQueueArn: "quiet w (snd (getQueueArn t q w))"
  unfolding getQueueArn_def
  by (simp add: quiet_and_then quiet_getQueueUrl quiet_sqs_getQueueAttributes)

lemma quiet_sns_listSubscriptionsByTopic: "quiet w (snd (sns_listSubscriptionsByTopic a w))"
  unfolding sns_listSubscriptionsByTopic_def by (rule quiet_provider) (simp_all split: sum.splits)

lemma quiet_sns_subscribe: "quiet w (snd (sns_subscribe a e w))"
  unfolding sns_subscribe_def
  by (rule quiet_provider) (simp_all add: Let_def quiet_store_update split: sum.splits)

lemma quiet_sns_setSubscriptionAttributes: "quiet w (snd (sns_setSubscriptionAttributes a v w))"
  unfolding sns_setSubscriptionAttributes_def
  by (rule quiet_provider) (simp_all add: quiet_store_update split: option.splits)

lemma quiet_checkQueueAlreadySubscribed: "quiet w (snd (checkQueueAlreadySubscribed a e w))"
  unfolding checkQueueAlreadySubscribed_def getSubscriptionsForTopic_def
  by (simp add: quiet_and_then quiet_sns_listSubscriptionsByTopic)

lemma quiet_parallel2:
  assumes "\<And>w. quiet w (snd (f w))" "\<And>w. quiet w (snd (g w))"
  shows "quiet w (snd (parallel2 f g w))"
proof -
  obtain r1 w1 where f: "f w = (r1, w1)" by (cases "f w")
  with assms(1)[of w] have q1: "quiet w w1" by simp
  obtain r2 w2 where g: "g w1 = (r2, w2)" by (cases "g w1")
  with assms(2)[of w1] have q2: "quiet w1 w2" by simp
  from quiet_trans[OF q1 q2] f g q1 show ?thesis
    by (cases r1; cases r2) (simp_all add: parallel2_def)
qed

lemma quiet_resolve_both: "quiet w (snd (resolve_both t m q w))"
  unfolding resolve_both_def
  by (rule quiet_parallel2) (simp_all add: quiet_queuedGetTopicArn quiet_getQueueArn)

lemma quiet_subscribeQueueToTopic: "quiet w (snd (subscribeQueueToTopic t m q w))"
  unfolding subscribeQueueToTopic_def
  by (simp add: quiet_and_then quiet_resolve_both quiet_checkQueueAlreadySubscribed
      quiet_sns_subscribe split: option.splits)

lemma quiet_subscribeQueueToTopics: "quiet w (snd (subscribeQueueToTopics ts q w))"
  unfolding subscribeQueueToTopics_def
  by (rule quiet_async_each) (rule quiet_subscribeQueueToTopic)

lemma quiet_setFilterForSubscription: "quiet w (snd (setFilterForSubscription t m q f w))"
  unfolding setFilterForSubscription_def
  by (simp add: quiet_and_then quiet_resolve_both quiet_checkQueueAlreadySubscribed
      quiet_sns_setSubscriptionAttributes split: option.splits)

lemma quiet_setFilterForSubscriptions: "quiet w (snd (setFilterForSubscriptions ts q f w))"
  unfolding setFilterForSubscriptions_def
  by (rule quiet_async_each) (rule quiet_setFilterForSubscription)


lemma quiet_names:
  assumes "quiet w w'" "environmentName w = Some e" "e \<noteq> []"
    "serviceName w = Some s" "s \<noteq> []" "length s \<le> 24"
  shows "environmentName w' = Some e" "serviceName w' = Some s"
  using assms by (auto simp: quiet_def)

lemma quiet_calls:
  assumes "quiet w w'"
  shows "\<exists>cs. calls w' = calls w @ cs \<and> created_names cs = []"
  using assms by (auto simp: quiet_def)

lemma sqs_createQueue_Ok:
  "sqs_createQueue n attrs w = (Ok u, w') \<Longrightarrow>
     calls w' = calls w @ [SqsCreateQueue n attrs]
     \<and> environmentName w' = environmentName w \<and> serviceName w' = serviceName w"
  by (auto simp: sqs_createQueue_def dest!: provider_Ok split: option.splits)

lemma dlq_names_valid: "isValidTopicName (JStr DLQ_TOPIC_NAME)" "isValidQueueName (JStr DLQ_QUEUE_NAME)"
  by (simp_all add: isValidTopicName_def isValidQueueName_def isValidName_def DLQ_TOPIC_NAME_def
      DLQ_QUEUE_NAME_def re_test_iff name_char_def)

lemma createDeadLetterQueue_Ok:
  assumes "createDeadLetterQueue w = (Ok a, w')"
    and n: "environmentName w = Some e" "e \<noteq> []" "serviceName w = Some s" "s \<noteq> []" "length s \<le> 24"
  shows "environmentName w' = Some e \<and> serviceName w' = Some s
     \<and> (\<exists>cs. calls w' = calls w @ cs
           \<and> created_names cs = [qualifiedQueueName e (JStr DLQ_TOPIC_NAME) s (JStr DLQ_QUEUE_NAME)])"
proof -
  let ?n = "qualifiedQueueName e (JStr DLQ_TOPIC_NAME) s (JStr DLQ_QUEUE_NAME)"
  have qn: "getQualifiedQueueName (JStr DLQ_TOPIC_NAME) (JStr DLQ_QUEUE_NAME) w = (Ok ?n, w)"
    by (rule getQualifiedQueueName_cached[OF n dlq_names_valid])
  with assms(1) obtain u w2 a3 w3 where
    c: "sqs_createQueue ?n [(''MessageRetentionPeriod'', ''1209600'')] w = (Ok u, w2)"
    and g: "getQueueArn (JStr DLQ_TOPIC_NAME) (JStr DLQ_QUEUE_NAME) w2 = (Ok a3, w3)"
    and sa: "and_then (sqs_setQueueAttributes u [(''Policy'', json_text (getQueuePolicy a3))] w3)
                      (\<lambda>u w4. (Ok a3, w4)) = (Ok a, w')"
    by (auto simp: createDeadLetterQueue_def and_then_Ok)
  from sa have w': "w' = snd (sqs_setQueueAttributes u [(''Policy'', json_text (getQueuePolicy a3))] w3)"
    by (auto simp: and_then_Ok)
  from sqs_createQueue_Ok[OF c] n have c2: "calls w2 = calls w @ [SqsCreateQueue ?n [(''MessageRetentionPeriod'', ''1209600'')]]"
    "environmentName w2 = Some e" "serviceName w2 = Some s" by simp_all
  from g quiet_getQueueArn[of w2 "JStr DLQ_TOPIC_NAME" "JStr DLQ_QUEUE_NAME"] have q3: "quiet w2 w3" by simp
  from w' quiet_sqs_setQueueAttributes[of w3] have q4: "quiet w3 w'" by simp
  note q = quiet_trans[OF q3 q4]
  from quiet_names[OF q c2(2) n(2) c2(3) n(4,5)] quiet_calls[OF q] c2(1) show ?thesis
    by auto
qed

lemma createQueue_Ok:
  assumes "createQueue t q w = (Ok a, w')"
  shows "\<exists>e s cs. environmentName w' = Some e \<and> e \<noteq> [] \<and> serviceName w' = Some s \<and> s \<noteq> []
     \<and> length s \<le> 24 \<and> calls w' = calls w @ cs
     \<and> created_names cs = [qualifiedQueueName e t s q,
                            qualifiedQueueName e (JStr DLQ_TOPIC_NAME) s (JStr DLQ_QUEUE_NAME)]"
proof -
  from assms have v: "isValidTopicName t" "isValidQueueName q"
    by (auto simp: createQueue_def split: if_splits)
  with assms obtain n w1 u w2 a3 w3 d w4 where
    qn: "getQualifiedQueueName t q w = (Ok n, w1)"
    and c: "sqs_createQueue n [(''MessageRetentionPeriod'', ''43200''),
                          (''ReceiveMessageWaitTimeSeconds'', ''20''),
                          (''VisibilityTimeout'', ''180'')] w1 = (Ok u, w2)"
    and g: "getQueueArn t q w2 = (Ok a3, w3)"
    and dl: "createDeadLetterQueue w3 = (Ok d, w4)"
    and sa: "and_then (sqs_setQueueAttributes u
                                        [(''Policy'', json_text (getQueuePolicy a3)),
                                         (''RedrivePolicy'', json_text (getRedrivePolicy d))] w4)
                              (\<lambda>u w5. (Ok a3, w5)) = (Ok a, w')"
    by (auto simp: createQueue_def and_then_Ok)
  from sa have w': "w' = snd (sqs_setQueueAttributes u
                                        [(''Policy'', json_text (getQueuePolicy a3)),
                                         (''RedrivePolicy'', json_text (getRedrivePolicy d))] w4)"
    by (auto simp: and_then_Ok)
  from getQualifiedQueueName_Ok[OF qn] obtain e s where es: "n = qualifiedQueueName e t s q"
    "e \<noteq> []" "s \<noteq> []" "length s \<le> 24"
    "w1 = w\<lparr>environmentName := Some e, serviceName := Some s\<rparr>" by blast
  from sqs_createQueue_Ok[OF c] es have c2: "calls w2 = calls w @ [SqsCreateQueue n [(''MessageRetentionPeriod'', ''43200''),
                          (''ReceiveMessageWaitTimeSeconds'', ''20''),
                          (''VisibilityTimeout'', ''180'')]]"
    "environmentName w2 = Some e" "serviceName w2 = Some s" by simp_all
  from g quiet_getQueueArn[of w2 t q] have q3: "quiet w2 w3" by simp
  from quiet_names[OF q3 c2(2) es(2) c2(3) es(3,4)] have n3: "environmentName w3 = Some e" "serviceName w3 = Some s" .
  from quiet_calls[OF q3] obtain cs3 where cs3: "calls w3 = calls w2 @ cs3" "created_names cs3 = []" by blast
  from createDeadLetterQueue_Ok[OF dl n3(1) es(2) n3(2) es(3,4)] obtain cs4 where
    n4: "environmentName w4 = Some e" "serviceName w4 = Some s"
    and cs4: "calls w4 = calls w3 @ cs4"
      "created_names cs4 = [qualifiedQueueName e (JStr DLQ_TOPIC_NAME) s (JStr DLQ_QUEUE_NAME)]" by blast
  from w' quiet_sqs_setQueueAttributes[of w4] have q5: "quiet w4 w'" by simp
  from quiet_names[OF q5 n4(1) es(2) n4(2) es(3,4)] have n5: "environmentName w' = Some e" "serviceName w' = Some s" .
  from quiet_calls[OF q5] obtain cs5 where cs5: "calls w' = calls w4 @ cs5" "created_names cs5 = []" by blast
  from es n5 c2(1) cs3 cs4 cs5 show ?thesis by auto
qed

lemma getTopicName_cases:
  "1 < length ts \<Longrightarrow> getTopicName ts = JStr MULTIPLE_TOPICS" "getTopicName [t] = t"
  by (auto simp: getTopicName_def split: list.splits)

section \<open>The queue of a subscription descriptor\<close>

text \<open>
  Claim C9.  When \<^verbatim>\<open>createSubscription\<close> has realized a descriptor, the queues it asked the
  provider to create are the descriptor's queue and the dead-letter queue, in that order.
  With more than one topic name the descriptor's queue is qualified by the reserved name
  \<^verbatim>\<open>multipleTopics\<close>; with exactly one topic name it is qualified by that name.
\<close>

theorem createSubscription_queue_qualification:
  assumes "createSubscription d w = (Ok u, w')"
  shows "\<exists>e s. environmentName w' = Some e \<and> serviceName w' = Some s
     \<and> (1 < length (topicNames d) \<longrightarrow>
          created_names (drop (length (calls w)) (calls w'))
            = [qualifiedQueueName e (JStr MULTIPLE_TOPICS) s (queueName d),
               qualifiedQueueName e (JStr DLQ_TOPIC_NAME) s (JStr DLQ_QUEUE_NAME)])
     \<and> (\<forall>t. topicNames d = [t] \<longrightarrow>
          created_names (drop (length (calls w)) (calls w'))
            = [qualifiedQueueName e t s (queueName d),
               qualifiedQueueName e (JStr DLQ_TOPIC_NAME) s (JStr DLQ_QUEUE_NAME)])"
proof -
  from assms obtain r1 w1 a w2 w3 where
    ct: "createTopics (topicNames d) w = (Ok r1, w1)"
    and cq: "createQueue (getTopicName (topicNames d)) (queueName d) w1 = (Ok a, w2)"
    and sq: "subscribeQueueToTopics (topicNames d) (queueName d) w2 = (Ok (), w3)"
    and sf: "(if truthy (filter_policy d)
                    then setFilterForSubscriptions (topicNames d)
                           (queueName d) (filter_policy d) w3
                    else (Ok (), w3)) = (Ok u, w')"
    by (auto simp: createSubscription_def and_then_Ok)
  from ct quiet_createTopics[of w "topicNames d"] have q1: "quiet w w1" by simp
  from quiet_calls[OF q1] obtain cs1 where cs1: "calls w1 = calls w @ cs1" "created_names cs1 = []" by blast
  from createQueue_Ok[OF cq] obtain e s cs2 where
    es: "environmentName w2 = Some e" "e \<noteq> []" "serviceName w2 = Some s" "s \<noteq> []" "length s \<le> 24"
    and cs2: "calls w2 = calls w1 @ cs2"
      "created_names cs2 = [qualifiedQueueName e (getTopicName (topicNames d)) s (queueName d),
                            qualifiedQueueName e (JStr DLQ_TOPIC_NAME) s (JStr DLQ_QUEUE_NAME)]"
    by blast
  from sq quiet_subscribeQueueToTopics[of w2 "topicNames d" "queueName d"] have q3: "quiet w2 w3" by simp
  from sf quiet_setFilterForSubscriptions[of w3 "topicNames d" "queueName d" "filter_policy d"]
  have q4: "quiet w3 w'" by (auto split: if_splits)
  note q = quiet_trans[OF q3 q4]
  from quiet_names[OF q es] have n: "environmentName w' = Some e" "serviceName w' = Some s" .
  from quiet_calls[OF q] obtain cs3 where cs3: "calls w' = calls w2 @ cs3" "created_names cs3 = []" by blast
  have "created_names (drop (length (calls w)) (calls w'))
      = [qualifiedQueueName e (getTopicName (topicNames d)) s (queueName d),
         qualifiedQueueName e (JStr DLQ_TOPIC_NAME) s (JStr DLQ_QUEUE_NAME)]"
    using cs1 cs2 cs3 by simp
  with n show ?thesis
    by (auto simp: getTopicName_cases)
qed

theorem createSubscription_queue_qualification_witness:
  "\<exists>e s. environmentName (snd (createSubscription two_topics dev_world)) = Some e
     \<and> serviceName (snd (createSubscription two_topics dev_world)) = Some s
     \<and> created_names (drop (length (calls dev_world))
                         (calls (snd (createSubscription two_topics dev_world))))
            = [qualifiedQueueName e (JStr MULTIPLE_TOPICS) s (JStr ''q''),
               qualifiedQueueName e (JStr DLQ_TOPIC_NAME) s (JStr DLQ_QUEUE_NAME)]"
proof -
  have "fst (createSubscription two_topics dev_world) = Ok ()"
    by code_simp
  then have h: "createSubscription two_topics dev_world
      = (Ok (), snd (createSubscription two_topics dev_world))"
    by (simp add: prod_eq_iff)
  have l: "1 < length (topicNames two_topics)" "queueName two_topics = JStr ''q''"
    by (simp_all add: two_topics_def)
  from createSubscription_queue_qualification[OF h] l show ?thesis
    by auto
qed

section \<open>Batches: properties\<close>

lemma async_map_length:
  "async_map f xs w = (Ok vs, w') \<Longrightarrow> length vs = length xs"
  by (induction xs arbitrary: w vs w')
     (auto split: prod.splits outcome.splits)

text \<open>
  What the batch callback receives from \<^verbatim>\<open>async.map\<close>: an error only if it is the error of
  one of the items, and a success whenever every item succeeds.  This is how
  \<^verbatim>\<open>createTopics\<close> and \<^verbatim>\<open>deleteTopics\<close> behave.
\<close>

lemma async_map_Failed_item:
  "async_map f xs w = (Failed e, w') \<Longrightarrow> \<exists>x\<in>set xs. \<exists>w0 w1. f x w0 = (Failed e, w1)"
proof (induction xs arbitrary: w w')
  case Nil
  then show ?case by simp
next
  case (Cons x xs)
  obtain r1 w1 where f: "f x w = (r1, w1)" by (cases "f x w")
  obtain r2 w2 where m: "async_map f xs w1 = (r2, w2)" by (cases "async_map f xs w1")
  show ?case
  proof (cases r1)
    case (Failed e1)
    with Cons.prems f m have "e1 = e" by (cases r2) auto
    with f Failed show ?thesis by auto
  next
    case (Ok v)
    with Cons.prems f m have "async_map f xs w1 = (Failed e, w')" by (cases r2) auto
    from Cons.IH[OF this] show ?thesis by auto
  next
    case (Threw e1)
    with Cons.prems f show ?thesis by simp
  qed
qed

lemma async_map_all_Ok:
  assumes "\<And>x w0. x \<in> set xs \<Longrightarrow> \<exists>v w1. f x w0 = (Ok v, w1)"
  shows "\<exists>vs w'. async_map f xs w = (Ok vs, w')"
  using assms
proof (induction xs arbitrary: w)
  case Nil
  show ?case by simp
next
  case (Cons x xs)
  from Cons.prems[of x w] obtain v w1 where f: "f x w = (Ok v, w1)" by auto
  from Cons.IH[of w1] Cons.prems obtain vs w2 where "async_map f xs w1 = (Ok vs, w2)"
    by (meson list.set_intros(2))
  with f show ?case by simp
qed

lemma topic_batches_report_an_item_error:
  "createTopics names w = (Failed e, w') \<Longrightarrow> names \<noteq> []
     \<Longrightarrow> \<exists>name\<in>set names. \<exists>w0 w1. createTopic name w0 = (Failed e, w1)"
  "deleteTopics names w = (Failed e, w') \<Longrightarrow> names \<noteq> []
     \<Longrightarrow> \<exists>name\<in>set names. \<exists>w0 w1. deleteTopic name w0 = (Failed e, w1)"
  by (auto simp: createTopics_def deleteTopics_def dest: async_map_Failed_item)

text \<open>
  Claim C4 says that each of the four batch operations applies its single-item operation
  to every name and hands the first error, or the success, to the batch callback.
  \<^verbatim>\<open>createQueues\<close> and \<^verbatim>\<open>deleteQueues\<close> do not: for every non-empty array, whatever the
  names and whatever the state, the first item raises a TypeError, because
  \<^verbatim>\<open>createQueue\<close> and \<^verbatim>\<open>deleteQueue\<close> are called without their third argument \<^verbatim>\<open>cb\<close>; the
  batch callback is never called.
\<close>

theorem queue_batches_throw:
  "fst (createQueues src (name # names) w) = Threw (TypeError ''cb is not a function'')
   \<and> fst (deleteQueues src (name # names) w) = Threw (TypeError ''cb is not a function'')"
  by (simp add: createQueues_def deleteQueues_def without_cb_def)

lemma queue_batches_example:
  "createQueues ''function (err, v) { callback(err, v); }'' [JStr ''orders''] orders_world
     = (Threw (TypeError ''cb is not a function''), orders_world)
   \<and> deleteQueues ''function (err, v) { callback(err, v); }'' [JStr ''orders''] orders_world
     = (Threw (TypeError ''cb is not a function''), orders_world)"
  by (simp add: createQueues_def deleteQueues_def without_cb_def createQueue_def deleteQueue_def
      isValidTopicName_def isValidQueueName_def isValidName_def re_test_iff name_char_def)

section \<open>Topic access policy: properties\<close>



















section \<open>The queue of lookups: properties\<close>

text \<open>
  As long as every lookup is started through \<^verbatim>\<open>queuedGetTopicArn\<close>, at most one lookup is in
  flight, whatever the order of calls and answers.
\<close>

lemma run_queue_serialized:
  "in_flight st = [] \<Longrightarrow> serialized (run_queue tasks st)"
  by (induction tasks st rule: run_queue.induct) (auto simp: serialized_def)

lemma step_serialized:
  assumes "serialized st" "through_queue ev"
  shows "serialized (step ev st)"
proof (cases ev)
  case (Call_queuedGetTopicArn t)
  show ?thesis
  proof (cases "busy st")
    case True
    with assms Call_queuedGetTopicArn show ?thesis by (simp add: serialized_def)
  next
    case False
    with assms(1) have "in_flight st = []" by (simp add: serialized_def)
    with False Call_queuedGetTopicArn show ?thesis by (simp add: run_queue_serialized)
  qed
next
  case (Call_getTopicArn t)
  with assms show ?thesis by simp
next
  case (Listing_returns i arns)
  show ?thesis
  proof (cases "i < length (in_flight st)")
    case False
    with assms Listing_returns show ?thesis by simp
  next
    case True
    with assms(1) have b: "busy st" "length (in_flight st) = 1" "i = 0"
      "list_all (\<lambda>l. fst l = Queued) (in_flight st)"
      by (auto simp: serialized_def split: if_splits)
    then obtain t where f: "in_flight st = [(Queued, t)]"
      by (cases "in_flight st") auto
    with Listing_returns True b show ?thesis
      by (simp add: Let_def run_queue_serialized)
  qed
qed

lemma run_serialized:
  "serialized st \<Longrightarrow> list_all through_queue evs \<Longrightarrow> serialized (fold step evs st)"
  by (induction evs arbitrary: st) (auto simp: step_serialized)

lemma serialized_at_most_one: "serialized st \<Longrightarrow> length (in_flight st) \<le> 1"
  by (auto simp: serialized_def split: if_splits)

lemma queue_serializes_lookups:
  "list_all through_queue evs \<Longrightarrow> length (in_flight (fold step evs fresh_process)) \<le> 1"
  by (rule serialized_at_most_one, rule run_serialized) (simp_all add: serialized_def fresh_process_def)

text \<open>
  Claim C5 says that every topic-ARN resolution of the module runs through the queue, so
  that at most one lookup is in flight.  \<^verbatim>\<open>addToTopicPolicy\<close> calls \<^verbatim>\<open>getTopicArn\<close> itself: in a
  fresh process, a queued lookup of \<^verbatim>\<open>a\<close> followed by \<^verbatim>\<open>addToTopicPolicy\<close> on \<^verbatim>\<open>b\<close>, before the
  first listing has returned, leaves two lookups in flight, each with its own listing.
\<close>

theorem direct_lookup_bypasses_queue:
  "in_flight (fold step [Call_queuedGetTopicArn (JStr ''a''), Call_getTopicArn (JStr ''b'')] fresh_process)
     = [(Queued, JStr ''a''), (Direct, JStr ''b'')]"
  by code_simp

end
